theory Spec2Isabelle
  imports Main
begin

section \<open>JavaScript values\<close>

text \<open>
  Payloads that reach the service (a decoded coordinator message, a parsed JSON file, a
  token handed over by the presence client) are plain data. \<open>undefined\<close> is not a
  constructor: it is the absence of a value (\<open>None\<close>) wherever the source reads a
  property or an index. Numbers are the integers the protocol carries.
\<close>

datatype jsval =
    JNull
  | JBool bool
  | JNum int
  | JStr string
  | JArr "jsval list"
  | JObj "(string \<times> jsval) list"

text \<open>A thrown or rejected value: an \<open>Error\<close> object with its message, or any other
  value, kept as the text \<open>String(value)\<close> gives.\<close>

datatype thrown = Error string | NonError string

text \<open>\<open>error instanceof Error ? error.message : String(error)\<close>\<close>

fun errorMessage :: "thrown \<Rightarrow> string" where
  "errorMessage (Error m) = m"
| "errorMessage (NonError s) = s"

text \<open>\<open>error instanceof Error ? error : new Error(String(error))\<close>\<close>

fun toError :: "thrown \<Rightarrow> thrown" where
  "toError (Error m) = Error m"
| "toError (NonError s) = Error s"

datatype 'a promise = Pending | Resolved 'a | Rejected thrown

text \<open>JavaScript truthiness (\<open>if (x)\<close>, \<open>x || y\<close>, \<open>!x\<close>).\<close>

fun truthy :: "jsval \<Rightarrow> bool" where
  "truthy JNull = False"
| "truthy (JBool b) = b"
| "truthy (JNum n) = (n \<noteq> 0)"
| "truthy (JStr s) = (s \<noteq> [])"
| "truthy (JArr xs) = True"
| "truthy (JObj kvs) = True"

fun truthy_opt :: "jsval option \<Rightarrow> bool" where
  "truthy_opt None = False"
| "truthy_opt (Some v) = truthy v"

text \<open>\<open>typeof v === 'object'\<close> (true of \<open>null\<close>, arrays and objects).\<close>

fun typeof_object :: "jsval \<Rightarrow> bool" where
  "typeof_object JNull = True"
| "typeof_object (JArr xs) = True"
| "typeof_object (JObj kvs) = True"
| "typeof_object v = False"

text \<open>\<open>Array.isArray(v)\<close>\<close>

fun isArray :: "jsval \<Rightarrow> bool" where
  "isArray (JArr xs) = True"
| "isArray v = False"

text \<open>
  Property read \<open>v.k\<close> on a value that is not \<open>null\<close>, for the data properties the
  source names (none of them is a built-in of strings or arrays): an object answers with
  its own binding, every other value with \<open>undefined\<close>.
\<close>

fun getprop :: "jsval \<Rightarrow> string \<Rightarrow> jsval option" where
  "getprop (JObj kvs) k = map_of kvs k"
| "getprop v k = None"

text \<open>Optional chaining \<open>x?.k\<close>: \<open>undefined\<close> when \<open>x\<close> is \<open>undefined\<close> or \<open>null\<close>.\<close>

fun ochain :: "jsval option \<Rightarrow> string \<Rightarrow> jsval option" where
  "ochain None k = None"
| "ochain (Some JNull) k = None"
| "ochain (Some v) k = getprop v k"

text \<open>\<open>x || 0\<close>\<close>

fun or_zero :: "jsval option \<Rightarrow> jsval" where
  "or_zero None = JNum 0"
| "or_zero (Some v) = (if truthy v then v else JNum 0)"

text \<open>\<open>x ?? null\<close>\<close>

fun nullish_null :: "jsval option \<Rightarrow> jsval" where
  "nullish_null None = JNull"
| "nullish_null (Some v) = v"

text \<open>\<open>xs[0]\<close>: \<open>undefined\<close> on an empty array.\<close>

fun index0 :: "jsval list \<Rightarrow> jsval option" where
  "index0 [] = None"
| "index0 (x # xs) = Some x"

section \<open>Coordinator connection (\<open>GCConnection\<close>)\<close>

record gc_connection =
  isConnected :: bool
  isReady :: bool

text \<open>The field initialisers of the class.\<close>

definition new_GCConnection :: gc_connection where
  "new_GCConnection = \<lparr>isConnected = False, isReady = False\<rparr>"

text \<open>The four events \<open>setupEventListeners\<close> subscribes to, with their arguments.\<close>

datatype gc_event =
    ConnectedToGC
  | DisconnectedFromGC int
  | ConnectionStatus int
  | GcError thrown

fun gc_listener :: "gc_connection \<Rightarrow> gc_event \<Rightarrow> gc_connection" where
  "gc_listener s ConnectedToGC = s\<lparr>isConnected := True, isReady := True\<rparr>"
| "gc_listener s (DisconnectedFromGC reason) = s\<lparr>isConnected := False, isReady := False\<rparr>"
| "gc_listener s (ConnectionStatus status) =
     (if status = 2 then s\<lparr>isConnected := False, isReady := False\<rparr>
      else if status = 4 then s
      else if status \<noteq> 3 then s\<lparr>isReady := False\<rparr>
      else s)"
| "gc_listener s (GcError e) = s\<lparr>isConnected := False, isReady := False\<rparr>"

definition isGcReady :: "gc_connection \<Rightarrow> bool" where
  "isGcReady s = (isReady s \<and> isConnected s)"

text \<open>The connection after a sequence of events, oldest first.\<close>

definition gc_run :: "gc_connection \<Rightarrow> gc_event list \<Rightarrow> gc_connection" where
  "gc_run s es = foldl gc_listener s es"

section \<open>Presence session watchdog (\<open>SteamAuth\<close>)\<close>

definition MAX_DISCONNECTS :: nat where
  "MAX_DISCONNECTS = 5"

text \<open>
  The watchdog's part of the object: the counter, and the exit code once
  \<open>process.exit\<close> has been called (no handler runs in a process that has exited).
\<close>

record watchdog =
  disconnectCount :: nat
  exited :: "int option"

definition new_watchdog :: watchdog where
  "new_watchdog = \<lparr>disconnectCount = 0, exited = None\<rparr>"

definition handleDisconnect :: "watchdog \<Rightarrow> watchdog" where
  "handleDisconnect s =
     (let s1 = s\<lparr>disconnectCount := disconnectCount s + 1\<rparr>
      in if disconnectCount s1 \<ge> MAX_DISCONNECTS then s1\<lparr>exited := Some 1\<rparr> else s1)"

text \<open>The presence client's events the watchdog listens to.\<close>

datatype client_event =
    LoggedOn
  | ClientError thrown
  | Disconnected int "string option"

fun is_disconnect :: "client_event \<Rightarrow> bool" where
  "is_disconnect LoggedOn = False"
| "is_disconnect (ClientError e) = True"
| "is_disconnect (Disconnected eresult msg) = True"

fun watchdog_listener :: "watchdog \<Rightarrow> client_event \<Rightarrow> watchdog" where
  "watchdog_listener s LoggedOn =
     (if exited s = None then s\<lparr>disconnectCount := 0\<rparr> else s)"
| "watchdog_listener s (ClientError e) =
     (if exited s = None then handleDisconnect s else s)"
| "watchdog_listener s (Disconnected eresult msg) =
     (if exited s = None then handleDisconnect s else s)"

definition watchdog_run :: "watchdog \<Rightarrow> client_event list \<Rightarrow> watchdog" where
  "watchdog_run s es = foldl watchdog_listener s es"

section \<open>Profile requests (\<open>ProfileFetcher\<close>)\<close>

subsection \<open>The normalised record\<close>

record player_commendations =
  friendly :: jsval
  leader :: jsval
  teacher :: jsval

record service_medal =
  medalId :: int

record player_profile =
  steamId64 :: string
  commendations :: player_commendations
  medals :: "service_medal list"
  equippedMedal :: jsval
  xpLevel :: "jsval option"
  fetchedAt :: string

text \<open>The test \<open>/^\d{17}$/.test(steamId64)\<close>: seventeen characters, each a decimal digit.\<close>

definition is_digit :: "char \<Rightarrow> bool" where
  "is_digit c = (c \<in> set ''0123456789'')"

definition steamid_test :: "string \<Rightarrow> bool" where
  "steamid_test steamId = (length steamId = 17 \<and> list_all is_digit steamId)"

text \<open>
  \<open>Array.from(new Set(xs))\<close>: a \<open>Set\<close> keeps the first occurrence of every element, in
  insertion order.
\<close>

fun set_add :: "'a list \<Rightarrow> 'a \<Rightarrow> 'a list" where
  "set_add acc x = (if x \<in> set acc then acc else acc @ [x])"

definition array_from_set :: "'a list \<Rightarrow> 'a list" where
  "array_from_set xs = foldl set_add [] xs"

text \<open>\<open>xs.filter((id) => typeof id === 'number')\<close>\<close>

fun filter_numbers :: "jsval list \<Rightarrow> int list" where
  "filter_numbers [] = []"
| "filter_numbers (JNum n # xs) = n # filter_numbers xs"
| "filter_numbers (x # xs) = filter_numbers xs"

text \<open>
  \<open>parseProfileResponse(profile, steamId64)\<close>; \<open>now\<close> is what
  \<open>new Date().toISOString()\<close> returns at the call. The function only reads
  \<open>profile\<close>, which the response handler has checked to be a non-null object.
\<close>

definition parseProfileResponse :: "jsval \<Rightarrow> string \<Rightarrow> string \<Rightarrow> player_profile" where
  "parseProfileResponse profile steamId now =
     (let commendation = getprop profile ''commendation'';
          display_items_defidx = ochain (getprop profile ''medals'') ''display_items_defidx'';
          is_list = (truthy_opt display_items_defidx
                     \<and> (case display_items_defidx of Some v \<Rightarrow> isArray v | None \<Rightarrow> False));
          items = (case display_items_defidx of Some (JArr xs) \<Rightarrow> xs | _ \<Rightarrow> []);
          uniqueMedalIds = array_from_set (filter_numbers items)
      in \<lparr>steamId64 = steamId,
          commendations =
            \<lparr>friendly = or_zero (ochain commendation ''cmd_friendly''),
             leader = or_zero (ochain commendation ''cmd_leader''),
             teacher = or_zero (ochain commendation ''cmd_teaching'')\<rparr>,
          medals = (if is_list then map (\<lambda>m. \<lparr>medalId = m\<rparr>) uniqueMedalIds else []),
          equippedMedal = (if is_list then nullish_null (index0 items) else JNull),
          xpLevel = getprop profile ''player_level'',
          fetchedAt = now\<rparr>)"

subsection \<open>The coordinator client as an event emitter\<close>

text \<open>
  Each call of \<open>fetchProfile\<close> creates its own promise, timer and response handler; the
  call's number stands for all three. The coordinator client keeps the registered
  response handlers in registration order. \<open>effects\<close> records, oldest first, every
  method the fetcher calls on the client and every timer it starts or clears.
\<close>

record fetch_call =
  call_steamId :: string
  call_promise :: "player_profile promise"
  call_timer :: bool

datatype effect =
    GcOnce string nat
  | GcRemoveListener string nat
  | GcRequestPlayersProfile string
  | SetTimeout nat nat
  | ClearTimeout nat
  | WriteProfileFile string

record fetcher =
  enableFileCache :: bool
  listeners :: "(string \<times> nat) list"
  calls :: "fetch_call list"
  effects :: "effect list"

definition new_ProfileFetcher :: "bool \<Rightarrow> fetcher" where
  "new_ProfileFetcher cache = \<lparr>enableFileCache = cache, listeners = [], calls = [], effects = []\<rparr>"

definition PROFILE_REQUEST_TIMEOUT_MS :: nat where
  "PROFILE_REQUEST_TIMEOUT_MS = 30000"

definition eventName :: "string \<Rightarrow> string" where
  "eventName steamId = ''playersProfile#'' @ steamId"

definition effect :: "fetcher \<Rightarrow> effect \<Rightarrow> fetcher" where
  "effect w e = w\<lparr>effects := effects w @ [e]\<rparr>"

text \<open>
  \<open>emitter.removeListener(name, handler)\<close> takes the most recently added matching
  registration out of the list, if there is one.
\<close>

definition remove_registration :: "(string \<times> nat) list \<Rightarrow> string \<Rightarrow> nat \<Rightarrow> (string \<times> nat) list" where
  "remove_registration ls name h = rev (remove1 (name, h) (rev ls))"

definition gc_once :: "fetcher \<Rightarrow> string \<Rightarrow> nat \<Rightarrow> fetcher" where
  "gc_once w name h = effect (w\<lparr>listeners := listeners w @ [(name, h)]\<rparr>) (GcOnce name h)"

definition gc_removeListener :: "fetcher \<Rightarrow> string \<Rightarrow> nat \<Rightarrow> fetcher" where
  "gc_removeListener w name h =
     effect (w\<lparr>listeners := remove_registration (listeners w) name h\<rparr>) (GcRemoveListener name h)"

definition update_call :: "fetcher \<Rightarrow> nat \<Rightarrow> (fetch_call \<Rightarrow> fetch_call) \<Rightarrow> fetcher" where
  "update_call w c f = w\<lparr>calls := (calls w)[c := f (calls w ! c)]\<rparr>"

definition setTimeout :: "fetcher \<Rightarrow> nat \<Rightarrow> nat \<Rightarrow> fetcher" where
  "setTimeout w c ms = effect (update_call w c (\<lambda>k. k\<lparr>call_timer := True\<rparr>)) (SetTimeout c ms)"

definition clearTimeout :: "fetcher \<Rightarrow> nat \<Rightarrow> fetcher" where
  "clearTimeout w c = effect (update_call w c (\<lambda>k. k\<lparr>call_timer := False\<rparr>)) (ClearTimeout c)"

text \<open>A promise settles once: \<open>resolve\<close> and \<open>reject\<close> on a settled promise do nothing.\<close>

definition settle :: "player_profile promise \<Rightarrow> fetch_call \<Rightarrow> fetch_call" where
  "settle result k = (if call_promise k = Pending then k\<lparr>call_promise := result\<rparr> else k)"

definition resolve :: "fetcher \<Rightarrow> nat \<Rightarrow> player_profile \<Rightarrow> fetcher" where
  "resolve w c profile = update_call w c (settle (Resolved profile))"

definition reject :: "fetcher \<Rightarrow> nat \<Rightarrow> thrown \<Rightarrow> fetcher" where
  "reject w c e = update_call w c (settle (Rejected e))"

subsection \<open>\<open>fetchProfile\<close> and its callbacks\<close>

text \<open>
  What \<open>this.gc.requestPlayersProfile\<close> is when \<open>fetchProfile\<close> reaches the send: a
  method that returns, a method that throws, or no method at all.
\<close>

datatype send_behaviour = SendOk | SendThrows thrown | SendMissing

text \<open>The \<open>catch\<close> block around the send.\<close>

definition send_failed :: "fetcher \<Rightarrow> nat \<Rightarrow> string \<Rightarrow> thrown \<Rightarrow> fetcher" where
  "send_failed w c name e = reject (gc_removeListener (clearTimeout w c) name c) c e"

text \<open>
  The executor of the promise \<open>fetchProfile\<close> returns. The new call takes the next free
  number; its promise is the one the caller awaits.
\<close>

definition fetchProfile :: "fetcher \<Rightarrow> string \<Rightarrow> send_behaviour \<Rightarrow> fetcher" where
  "fetchProfile w steamId send =
     (let c = length (calls w);
          w0 = w\<lparr>calls := calls w @
                 [\<lparr>call_steamId = steamId, call_promise = Pending, call_timer = False\<rparr>]\<rparr>
      in if \<not> steamid_test steamId
         then reject w0 c (Error ''Invalid Steam ID 64 format. Must be 17 digits.'')
         else
           let name = eventName steamId;
               w1 = gc_once w0 name c;
               w2 = setTimeout w1 c PROFILE_REQUEST_TIMEOUT_MS
           in case send of
                SendOk \<Rightarrow> effect w2 (GcRequestPlayersProfile steamId)
              | SendThrows e \<Rightarrow>
                  send_failed (effect w2 (GcRequestPlayersProfile steamId)) c name e
              | SendMissing \<Rightarrow>
                  send_failed w2 c name
                    (Error ''requestPlayersProfile method not available on GC instance''))"

text \<open>
  \<open>responseHandler\<close> of call \<open>c\<close>, run on the payload of a response event.
  The type guard throws before the \<open>try\<close> block: the handler is \<open>async\<close>, so the throw
  rejects the handler's own promise, which nothing awaits, and nothing else happens.
  \<open>save_error\<close> is the error \<open>saveProfileToFile\<close> throws, if it throws (its own check
  of the identifier cannot fail: \<open>fetchProfile\<close> made the same check); it is only
  consulted when the file cache is on. The handler's suspensions at \<open>await\<close> are run
  through at once: by then its timer is cleared and its registration is gone, so no
  other callback of this call can run in between.
\<close>

definition responseHandler ::
  "fetcher \<Rightarrow> nat \<Rightarrow> jsval option \<Rightarrow> string \<Rightarrow> thrown option \<Rightarrow> fetcher" where
  "responseHandler w c profile now save_error =
     (case profile of
        None \<Rightarrow> w
      | Some p \<Rightarrow>
          if \<not> truthy p \<or> \<not> typeof_object p then w
          else
            let steamId = call_steamId (calls w ! c);
                name = eventName steamId;
                w1 = clearTimeout w c;
                parsedProfile = parseProfileResponse p steamId now
            in if enableFileCache w then
                 (case save_error of
                    None \<Rightarrow>
                      resolve (gc_removeListener (effect w1 (WriteProfileFile steamId)) name c)
                        c parsedProfile
                  | Some err \<Rightarrow> reject (gc_removeListener w1 name c) c err)
               else resolve (gc_removeListener w1 name c) c parsedProfile)"

text \<open>
  A handler registered with \<open>once\<close> is wrapped: when the event arrives, the wrapper
  takes the registration out of the list and then calls the handler.
\<close>

definition once_wrapper ::
  "fetcher \<Rightarrow> string \<Rightarrow> nat \<Rightarrow> jsval option \<Rightarrow> string \<Rightarrow> thrown option \<Rightarrow> fetcher" where
  "once_wrapper w name c profile now save_error =
     responseHandler (w\<lparr>listeners := remove_registration (listeners w) name c\<rparr>)
       c profile now save_error"

text \<open>
  \<open>gc.emit(name, profile)\<close>: the handlers registered under \<open>name\<close> when the event is
  emitted are called in registration order.
\<close>

definition emit ::
  "fetcher \<Rightarrow> string \<Rightarrow> jsval option \<Rightarrow> string \<Rightarrow> (nat \<Rightarrow> thrown option) \<Rightarrow> fetcher" where
  "emit w name profile now save =
     foldl (\<lambda>w' c. once_wrapper w' name c profile now (save c)) w
       (map snd (filter (\<lambda>l. fst l = name) (listeners w)))"

text \<open>The callback given to \<open>setTimeout\<close>.\<close>

definition timeout_callback :: "fetcher \<Rightarrow> nat \<Rightarrow> fetcher" where
  "timeout_callback w c =
     (let steamId = call_steamId (calls w ! c)
      in reject (gc_removeListener w (eventName steamId) c) c
           (Error (''Timeout waiting for profile response for '' @ steamId)))"

text \<open>A timer fires only while it is armed, and only once.\<close>

definition timer_fires :: "fetcher \<Rightarrow> nat \<Rightarrow> fetcher" where
  "timer_fires w c =
     (if c < length (calls w) \<and> call_timer (calls w ! c)
      then timeout_callback (update_call w c (\<lambda>k. k\<lparr>call_timer := False\<rparr>)) c
      else w)"

text \<open>
  What can happen to a fetcher: a caller starts a request, the coordinator client emits
  an event (with its payload, the time, and the outcome of the cache write for each
  call), or a timer runs out.
\<close>

datatype fetcher_event =
    Fetch string send_behaviour
  | Emit string "jsval option" string "nat \<Rightarrow> thrown option"
  | TimerFires nat

fun fetcher_step :: "fetcher \<Rightarrow> fetcher_event \<Rightarrow> fetcher" where
  "fetcher_step w (Fetch steamId send) = fetchProfile w steamId send"
| "fetcher_step w (Emit name profile now save) = emit w name profile now save"
| "fetcher_step w (TimerFires c) = timer_fires w c"

definition fetcher_run :: "fetcher \<Rightarrow> fetcher_event list \<Rightarrow> fetcher" where
  "fetcher_run w es = foldl fetcher_step w es"

section \<open>Request routing (\<open>APIServer\<close>)\<close>

datatype body =
    ErrorBody string
  | FailureBody string string
  | ProfileBody player_profile bool

record http_response =
  status :: nat
  json :: body

text \<open>
  The handler of \<open>GET /api/profile/:steamId64\<close>. \<open>cache\<close> is
  \<open>process.env.ENABLE_FILE_CACHE === 'true'\<close>, \<open>cached\<close> what \<open>loadProfileFromFile\<close>
  returns (\<open>None\<close> for \<open>null\<close>), \<open>force\<close> is \<open>req.query.force === 'true'\<close>, and
  \<open>fetched\<close> is the promise \<open>fetchProfile\<close> returned, as the handler finds it: while it
  is pending the handler waits and there is no response yet.
  \<open>ErrorBody e\<close> is \<open>{error: e}\<close>, \<open>FailureBody e m\<close> is \<open>{error: e, message: m}\<close> and
  \<open>ProfileBody p c\<close> is \<open>{...p, cached: c}\<close>; \<open>res.json\<close> without \<open>res.status\<close>
  answers 200.
\<close>

definition profile_route ::
  "gc_connection \<Rightarrow> bool \<Rightarrow> player_profile option \<Rightarrow> bool \<Rightarrow> string \<Rightarrow>
   player_profile promise \<Rightarrow> http_response option" where
  "profile_route gcConnection cache cached force steamId fetched =
     (if \<not> steamid_test steamId then
        Some \<lparr>status = 400, json = ErrorBody ''Invalid Steam ID 64 format. Must be 17 digits.''\<rparr>
      else if \<not> isGcReady gcConnection then
        Some \<lparr>status = 503,
              json = ErrorBody ''Game Coordinator not ready. Please wait for connection.''\<rparr>
      else
        case (if cache \<and> \<not> force then cached else None) of
          Some profile \<Rightarrow> Some \<lparr>status = 200, json = ProfileBody profile True\<rparr>
        | None \<Rightarrow>
            (case fetched of
               Pending \<Rightarrow> None
             | Resolved profile \<Rightarrow> Some \<lparr>status = 200, json = ProfileBody profile False\<rparr>
             | Rejected error \<Rightarrow>
                 Some \<lparr>status = 500,
                       json = FailureBody ''Failed to fetch player profile''
                                (errorMessage error)\<rparr>))"

section \<open>Credential files and login (\<open>SteamAuth\<close>)\<close>

text \<open>
  Strings are sequences of the code units below 256. \<open>String.prototype.trim\<close> removes
  white space and line terminators from both ends; these are the ones in that range.
\<close>

definition is_space :: "char \<Rightarrow> bool" where
  "is_space c = (c \<in> set [CHR 0x09, CHR 0x0A, CHR 0x0B, CHR 0x0C, CHR 0x0D, CHR 0x20, CHR 0xA0])"

definition trim :: "string \<Rightarrow> string" where
  "trim s = rev (dropWhile is_space (rev (dropWhile is_space s)))"

text \<open>\<open>s.startsWith(p)\<close>\<close>

definition startsWith :: "string \<Rightarrow> string \<Rightarrow> bool" where
  "startsWith s p = (take (length p) s = p)"

text \<open>
  The text of a file read as UTF-8. Text that \<open>JSON.parse\<close> accepts is kept as the value
  \<open>JSON.parse\<close> returns for it, and \<open>JSON.stringify(v, null, 2)\<close> writes the text kept as
  \<open>Stringified v\<close>; any other text is kept as it is. A file is text, or the bytes of a
  \<open>Buffer\<close>.
\<close>

datatype file_text = Stringified jsval | PlainText string

datatype file_content = Text file_text | Binary string

text \<open>
  The argument \<open>data\<close> of \<open>saveSessionData\<close>: \<open>undefined\<close>, a \<open>Buffer\<close> with its bytes, or
  any other value.
\<close>

datatype session_data = Undefined | BufferData string | Value jsval

text \<open>
  \<open>saveSessionData\<close> is private and is called with \<open>this.tokenPath\<close> or
  \<open>this.sentryPath\<close> only; the constructor makes the two paths different, so
  \<open>filename === this.tokenPath\<close> tells which of the two files is written.
\<close>

datatype session_file = TokenPath | SentryPath

text \<open>The options object handed to \<open>client.logOn\<close>.\<close>

record logon_options =
  opt_accountName :: "string option"
  opt_password :: "string option"
  opt_loginKey :: "string option"
  opt_refreshToken :: "string option"
  opt_machineAuthToken :: "jsval option"
  opt_shaSentryfile :: "file_content option"
  opt_twoFactorCode :: "string option"

definition no_options :: logon_options where
  "no_options = \<lparr>opt_accountName = None, opt_password = None, opt_loginKey = None,
     opt_refreshToken = None, opt_machineAuthToken = None, opt_shaSentryfile = None,
     opt_twoFactorCode = None\<rparr>"

text \<open>
  The object with the three per-account files it reads and writes (\<open>None\<close>: the file
  does not exist) and the calls it has made to \<open>client.logOn\<close>, oldest first. File
  operations fail only for a missing file.
\<close>

record steam_auth =
  accountName :: string
  token_file :: "file_text option"
  sentry_file :: "file_content option"
  loginKey_file :: "string option"
  logOn_calls :: "logon_options list"

subsection \<open>Saving and loading the machine auth token\<close>

text \<open>\<open>a || b\<close>\<close>

fun js_or :: "jsval option \<Rightarrow> jsval option \<Rightarrow> jsval option" where
  "js_or a b = (if truthy_opt a then a else b)"

text \<open>\<open>Object.keys(v).length > 0\<close>, for an object or an array.\<close>

fun has_keys :: "jsval \<Rightarrow> bool" where
  "has_keys (JObj kvs) = (kvs \<noteq> [])"
| "has_keys (JArr xs) = (xs \<noteq> [])"
| "has_keys v = False"

text \<open>\<open>k in v\<close>, for an object or an array and a key that is not an index.\<close>

fun has_key :: "string \<Rightarrow> jsval \<Rightarrow> bool" where
  "has_key k (JObj kvs) = (map_of kvs k \<noteq> None)"
| "has_key k v = False"

text \<open>
  The value whose JSON text \<open>JSON.stringify(data, null, 2)\<close> writes; for a \<open>Buffer\<close> it is
  what \<open>Buffer.prototype.toJSON\<close> returns. \<open>undefined\<close> does not get this far.
\<close>

fun data_json :: "session_data \<Rightarrow> jsval" where
  "data_json (Value v) = v"
| "data_json (BufferData b) =
     JObj [(''type'', JStr ''Buffer''), (''data'', JArr (map (\<lambda>c. JNum (int (of_char c))) b))]"
| "data_json Undefined = JNull"

text \<open>\<open>{token: tokenValue, accountName: this.accountName, savedAt: new Date().toISOString()}\<close>\<close>

definition structuredData :: "steam_auth \<Rightarrow> jsval \<Rightarrow> string \<Rightarrow> jsval" where
  "structuredData st tokenValue now =
     JObj [(''token'', tokenValue), (''accountName'', JStr (accountName st)), (''savedAt'', JStr now)]"

text \<open>
  The token value \<open>saveSessionData\<close> extracts from \<open>data\<close> for the token file;
  \<open>stringify v\<close> is the string \<open>JSON.stringify(v)\<close> returns.
\<close>

definition tokenValue_of :: "(jsval \<Rightarrow> string) \<Rightarrow> session_data \<Rightarrow> jsval option" where
  "tokenValue_of stringify data =
     (case data of
        Value (JStr s) \<Rightarrow> Some (JStr s)
      | Value dataObj \<Rightarrow>
          if truthy dataObj \<and> typeof_object dataObj then
            (let tokenValue =
                   js_or (getprop dataObj ''token'')
                     (js_or (getprop dataObj ''machineAuthToken'')
                        (js_or (getprop dataObj ''value'') None))
             in if \<not> truthy_opt tokenValue \<and> has_keys dataObj \<and> \<not> has_key ''token'' dataObj
                then Some (JStr (stringify dataObj))
                else tokenValue)
          else None
      | BufferData b \<Rightarrow> None
      | Undefined \<Rightarrow> None)"

text \<open>
  \<open>saveSessionData(filename, data, source)\<close>, with the time of the call; it returns the
  object with the file written, and the boolean of the source. In the token branch the
  assignment to \<open>dataToSave\<close> under \<open>'token' in dataObj\<close> is followed by the
  \<open>if (tokenValue) ... else\<close> below it, where \<open>tokenValue\<close> is falsy and the fallback
  assigns \<open>dataToSave\<close> again.
\<close>

definition saveSessionData ::
  "(jsval \<Rightarrow> string) \<Rightarrow> steam_auth \<Rightarrow> session_file \<Rightarrow> session_data \<Rightarrow> string \<Rightarrow>
   steam_auth \<times> bool" where
  "saveSessionData stringify st filename data now =
     (if data = Undefined then (st, False)
      else case filename of
        TokenPath \<Rightarrow>
          (let dataToSave =
                 (case tokenValue_of stringify data of
                    Some tokenValue \<Rightarrow>
                      if truthy tokenValue then structuredData st tokenValue now
                      else data_json data
                  | None \<Rightarrow> data_json data)
           in (st\<lparr>token_file := Some (Stringified dataToSave)\<rparr>, True))
      | SentryPath \<Rightarrow>
          (case data of
             BufferData b \<Rightarrow> (st\<lparr>sentry_file := Some (Binary b)\<rparr>, True)
           | Value (JStr s) \<Rightarrow> (st\<lparr>sentry_file := Some (Text (Stringified (JStr s)))\<rparr>, True)
           | Value v \<Rightarrow>
               if truthy v \<and> typeof_object v
               then (st\<lparr>sentry_file := Some (Text (Stringified v))\<rparr>, True)
               else (st, False)
           | Undefined \<Rightarrow> (st, False)))"

text \<open>\<open>loadMachineAuthToken()\<close>; \<open>JNull\<close> is the \<open>null\<close> it returns for a missing file.\<close>

definition loadMachineAuthToken :: "steam_auth \<Rightarrow> jsval" where
  "loadMachineAuthToken st =
     (case token_file st of
        None \<Rightarrow> JNull
      | Some (Stringified parsed) \<Rightarrow>
          if truthy parsed \<and> typeof_object parsed \<and> has_key ''token'' parsed
          then nullish_null (getprop parsed ''token'')
          else parsed
      | Some (PlainText tokenData) \<Rightarrow> JStr (trim tokenData))"

subsection \<open>The session key file\<close>

text \<open>\<open>saveLoginKey(key)\<close>: the read-back after the write finds what was written.\<close>

definition saveLoginKey :: "steam_auth \<Rightarrow> string \<Rightarrow> steam_auth \<times> bool" where
  "saveLoginKey st key =
     (if key = [] then (st, False)
      else
        let trimmedKey = trim key
        in if length trimmedKey = 0 then (st, False)
           else (st\<lparr>loginKey_file := Some trimmedKey\<rparr>, True))"

definition loadLoginKey :: "steam_auth \<Rightarrow> string option" where
  "loadLoginKey st =
     (case loginKey_file st of
        None \<Rightarrow> None
      | Some key \<Rightarrow>
          let trimmedKey = trim key
          in if length trimmedKey = 0 then None else Some trimmedKey)"

definition loadSentryFile :: "steam_auth \<Rightarrow> file_content option" where
  "loadSentryFile st = sentry_file st"

text \<open>\<open>handleInvalidLoginKey\<close>: \<open>fs.unlink\<close>, a missing file being ignored.\<close>

definition handleInvalidLoginKey :: "steam_auth \<Rightarrow> string \<Rightarrow> thrown \<Rightarrow> steam_auth" where
  "handleInvalidLoginKey st username error = st\<lparr>loginKey_file := None\<rparr>"

subsection \<open>Login\<close>

text \<open>
  What the presence client does with a \<open>logOn\<close> call: it emits \<open>loggedOn\<close> (with the
  account name of the event's details, if any), it emits \<open>error\<close>, or it emits neither
  (a one-time code is awaited).
\<close>

datatype logon_answer = AnswerLoggedOn "string option" | AnswerError thrown | NoAnswer

text \<open>
  Everything outside the object that a login consults: the answer of the presence
  client, the strings the scan of the client's internals hands to \<open>saveLoginKey\<close> (in
  scan order) and the machine auth token it finds (if any) after a password login,
  \<open>SteamTotp.generateAuthCode\<close>, \<open>JSON.stringify\<close> as a string, and the clock.
\<close>

record environment =
  env_answer :: logon_answer
  env_loginKeys :: "string list"
  env_machineAuthToken :: "session_data option"
  env_generateAuthCode :: "string \<Rightarrow> string"
  env_stringify :: "jsval \<Rightarrow> string"
  env_now :: string

text \<open>
  The presence client answers a \<open>logOn\<close> with an event, and an emitter calls the
  listeners of an event in the order of their registration: those the constructor
  registered, the watchdog's among them, before the one-shot handlers a login call
  registers. When the watchdog's listener calls \<open>process.exit\<close>, nothing runs after it:
  the handler of the call is never called and the promise of the call stays pending.
  (The constructor's other \<open>loggedOn\<close> listener only starts a timer; the scan it
  schedules runs after the call's handler has been entered and is no part of the call.)
  The logins take the watchdog's part of the object and return it as the event leaves it.
\<close>

text \<open>The options \<open>loginWithKey\<close> hands to \<open>logOn\<close>.\<close>

definition keyLoginOptions :: "string \<Rightarrow> string \<Rightarrow> logon_options" where
  "keyLoginOptions username loginKey =
     (let isRefreshToken = (startsWith loginKey ''eyJ'' \<or> startsWith loginKey ''eyA'')
      in if isRefreshToken then no_options\<lparr>opt_refreshToken := Some loginKey\<rparr>
         else no_options\<lparr>opt_accountName := Some username, opt_loginKey := Some loginKey\<rparr>)"

text \<open>
  \<open>loginWithKey(username, loginKey)\<close>: the object after the call, its watchdog, and the
  promise the call returns. The two one-shot handlers are the two answers of the case
  split, each after the watchdog's listener for the same event.
\<close>

definition loginWithKey ::
  "steam_auth \<Rightarrow> watchdog \<Rightarrow> string \<Rightarrow> string \<Rightarrow> logon_answer \<Rightarrow>
   steam_auth \<times> watchdog \<times> unit promise" where
  "loginWithKey st wd username loginKey answer =
     (let loginOptions = keyLoginOptions username loginKey;
          st1 = st\<lparr>logOn_calls := logOn_calls st @ [loginOptions]\<rparr>
      in case answer of
           AnswerLoggedOn details \<Rightarrow>
             (let wd1 = watchdog_listener wd LoggedOn
              in if exited wd1 \<noteq> None then (st1, wd1, Pending)
                 else (st1, wd1, Resolved ()))
         | AnswerError error \<Rightarrow>
             (let wd1 = watchdog_listener wd (ClientError error)
              in if exited wd1 \<noteq> None then (st1, wd1, Pending)
                 else
                   let err = toError error
                   in (handleInvalidLoginKey st1 username err, wd1, Rejected err))
         | NoAnswer \<Rightarrow> (st1, wd, Pending))"

text \<open>
  \<open>tryExtractLoginKeyFromClient\<close>: the candidates are handed to \<open>saveLoginKey\<close> one
  after the other until one is saved.
\<close>

fun tryExtractLoginKeyFromClient :: "steam_auth \<Rightarrow> string list \<Rightarrow> steam_auth \<times> bool" where
  "tryExtractLoginKeyFromClient st [] = (st, False)"
| "tryExtractLoginKeyFromClient st (k # ks) =
     (case saveLoginKey st k of
        (st', True) \<Rightarrow> (st', True)
      | (st', False) \<Rightarrow> tryExtractLoginKeyFromClient st' ks)"

text \<open>
  \<open>loginWithPassword(loginOptions)\<close>. After \<open>loggedOn\<close> the handler scans for a session
  key, then (with up to three retries) for a machine auth token, which it saves the
  first time it finds one; the promise resolves whatever the scans find. Its error
  handler only rejects.
\<close>

definition loginWithPassword ::
  "environment \<Rightarrow> steam_auth \<Rightarrow> watchdog \<Rightarrow> logon_options \<Rightarrow>
   steam_auth \<times> watchdog \<times> unit promise" where
  "loginWithPassword env st wd loginOptions =
     (let st1 = st\<lparr>logOn_calls := logOn_calls st @ [loginOptions]\<rparr>
      in case env_answer env of
           AnswerLoggedOn details \<Rightarrow>
             (let wd1 = watchdog_listener wd LoggedOn
              in if exited wd1 \<noteq> None then (st1, wd1, Pending)
                 else
                   let st2 = fst (tryExtractLoginKeyFromClient st1 (env_loginKeys env));
                       st3 = (case env_machineAuthToken env of
                                None \<Rightarrow> st2
                              | Some token \<Rightarrow>
                                  fst (saveSessionData (env_stringify env) st2 TokenPath token
                                         (env_now env)))
                   in (st3, wd1, Resolved ()))
         | AnswerError error \<Rightarrow>
             (let wd1 = watchdog_listener wd (ClientError error)
              in if exited wd1 \<noteq> None then (st1, wd1, Pending)
                 else (st1, wd1, Rejected (toError error)))
         | NoAnswer \<Rightarrow> (st1, wd, Pending))"

text \<open>
  The options \<open>login\<close> hands to \<open>loginWithPassword\<close>; \<open>sharedSecret\<close> may be
  \<open>undefined\<close>.
\<close>

definition passwordLoginOptions ::
  "environment \<Rightarrow> steam_auth \<Rightarrow> string \<Rightarrow> string \<Rightarrow> string option \<Rightarrow> logon_options" where
  "passwordLoginOptions env st username password sharedSecret =
     (let machineAuthToken = loadMachineAuthToken st;
          sentry = loadSentryFile st
      in no_options\<lparr>opt_accountName := Some username, opt_password := Some password,
           opt_machineAuthToken :=
             (if truthy machineAuthToken then Some machineAuthToken else None),
           opt_shaSentryfile := sentry,
           opt_twoFactorCode :=
             (case sharedSecret of
                None \<Rightarrow> None
              | Some secret \<Rightarrow>
                  if secret = [] then None
                  else Some (env_generateAuthCode env secret))\<rparr>)"

text \<open>\<open>login(username, password, sharedSecret)\<close>\<close>

definition login ::
  "environment \<Rightarrow> steam_auth \<Rightarrow> watchdog \<Rightarrow> string \<Rightarrow> string \<Rightarrow> string option \<Rightarrow>
   steam_auth \<times> watchdog \<times> unit promise" where
  "login env st wd username password sharedSecret =
     (case loadLoginKey st of
        Some loginKey \<Rightarrow> loginWithKey st wd username loginKey (env_answer env)
      | None \<Rightarrow>
          loginWithPassword env st wd
            (passwordLoginOptions env st username password sharedSecret))"

section \<open>Observing one call of \<open>fetchProfile\<close>\<close>

text \<open>
  What can be seen of call \<open>c\<close> from outside: the names under which its handler is
  registered on the coordinator client, how often \<open>removeListener\<close> has been called
  with its handler, and its record. \<open>handlers_of\<close> lists the calls whose handlers an
  event of a given name runs; \<open>identifiers\<close> lists the identifiers of all calls.
\<close>

fun is_removal :: "nat \<Rightarrow> effect \<Rightarrow> bool" where
  "is_removal c (GcRemoveListener name h) = (h = c)"
| "is_removal c e = False"

definition removeListener_calls :: "fetcher \<Rightarrow> nat \<Rightarrow> nat" where
  "removeListener_calls w c = length (filter (is_removal c) (effects w))"

definition registrations :: "fetcher \<Rightarrow> nat \<Rightarrow> string list" where
  "registrations w c = map fst (filter (\<lambda>l. snd l = c) (listeners w))"


definition local_state :: "fetcher \<Rightarrow> nat \<Rightarrow> fetch_call \<times> string list \<times> nat" where
  "local_state w c = (calls w ! c, registrations w c, removeListener_calls w c)"

definition handlers_of :: "fetcher \<Rightarrow> string \<Rightarrow> nat list" where
  "handlers_of w name = map snd (filter (\<lambda>l. fst l = name) (listeners w))"

definition identifiers :: "fetcher \<Rightarrow> string list" where
  "identifiers w = map call_steamId (calls w)"

text \<open>
  The states a call goes through. A call with a malformed identifier is rejected at
  once and never registers; a valid call waits with its timer armed, registered or (after
  a payload its handler refused) no longer registered; a settled valid call has no timer
  and no registration, \<open>removeListener\<close> has been called for it exactly once, and a
  resolved profile carries the call's identifier. Numbers beyond the calls made so far
  are unused.
\<close>

definition phase_ok :: "fetch_call \<times> string list \<times> nat \<Rightarrow> bool" where
  "phase_ok l =
     (case l of (k, rs, n) \<Rightarrow>
        if \<not> steamid_test (call_steamId k) then
          rs = [] \<and> \<not> call_timer k \<and> n = 0
          \<and> call_promise k = Rejected (Error ''Invalid Steam ID 64 format. Must be 17 digits.'')
        else if call_promise k = Pending then
          call_timer k \<and> n = 0 \<and> (rs = [] \<or> rs = [eventName (call_steamId k)])
        else
          \<not> call_timer k \<and> rs = [] \<and> n = 1
          \<and> (case call_promise k of Resolved p \<Rightarrow> steamId64 p = call_steamId k | _ \<Rightarrow> True))"

definition fetcher_inv :: "fetcher \<Rightarrow> bool" where
  "fetcher_inv w =
     (\<forall>c. if c < length (calls w) then phase_ok (local_state w c)
          else registrations w c = [] \<and> removeListener_calls w c = 0)"




section \<open>Properties of the coordinator connection\<close>

lemma gc_run_ready_cause:
  "isGcReady (gc_run s es) \<Longrightarrow> isGcReady s \<or> ConnectedToGC \<in> set es"
  unfolding gc_run_def
proof (induction es arbitrary: s)
  case Nil then show ?case by simp
next
  case (Cons e es)
  from Cons.IH [of "gc_listener s e"] Cons.prems
  have "isGcReady (gc_listener s e) \<or> ConnectedToGC \<in> set es" by simp
  then show ?case
    by (cases e) (auto simp: isGcReady_def split: if_splits)
qed

text \<open>
  Claim C4. The connection turns ready only in the listener of \<open>connectedToGC\<close>: a
  single event that makes \<open>isGcReady\<close> true is that event, a connection that is ready
  after any sequence of events has seen it, and a \<open>connectionStatus\<close> of 4 (Connected)
  changes nothing. An \<open>error\<close> or a \<open>disconnectedFromGC\<close> event leaves \<open>isGcReady\<close>
  false whatever the state before it.
\<close>

theorem gc_ready_only_by_ready_event:
  "(isGcReady (gc_listener s e) \<and> \<not> isGcReady s \<longrightarrow> e = ConnectedToGC)
   \<and> (isGcReady (gc_run new_GCConnection es) \<longrightarrow> ConnectedToGC \<in> set es)
   \<and> gc_listener s (ConnectionStatus 4) = s
   \<and> \<not> isGcReady (gc_listener s (GcError err))
   \<and> \<not> isGcReady (gc_listener s (DisconnectedFromGC reason))
   \<and> \<not> isGcReady (gc_run s (es @ [GcError err]))
   \<and> \<not> isGcReady (gc_run s (es @ [DisconnectedFromGC reason]))"
proof (intro conjI impI)
  assume "isGcReady (gc_listener s e) \<and> \<not> isGcReady s"
  then show "e = ConnectedToGC"
    by (cases e) (auto simp: isGcReady_def split: if_splits)
next
  assume "isGcReady (gc_run new_GCConnection es)"
  then have "isGcReady new_GCConnection \<or> ConnectedToGC \<in> set es"
    by (rule gc_run_ready_cause)
  then show "ConnectedToGC \<in> set es"
    by (simp add: isGcReady_def new_GCConnection_def)
qed (simp_all add: isGcReady_def gc_run_def)

theorem gc_ready_only_by_ready_event_witness:
  "isGcReady (gc_listener new_GCConnection ConnectedToGC) \<and> \<not> isGcReady new_GCConnection
   \<and> isGcReady (gc_run new_GCConnection [ConnectionStatus 4, ConnectedToGC, ConnectionStatus 3])
   \<and> ConnectedToGC \<in> set [ConnectionStatus 4, ConnectedToGC, ConnectionStatus 3]
   \<and> \<not> isGcReady (gc_run new_GCConnection [ConnectionStatus 4])
   \<and> \<not> isGcReady (gc_run new_GCConnection [ConnectedToGC, GcError (Error ''x'')])"
  using gc_ready_only_by_ready_event
    [where s = new_GCConnection and e = ConnectedToGC
       and es = "[ConnectionStatus 4, ConnectedToGC, ConnectionStatus 3]"]
  by (simp add: isGcReady_def gc_run_def new_GCConnection_def)

section \<open>Properties of the watchdog\<close>

lemma handleDisconnect_below:
  "disconnectCount s + 1 < MAX_DISCONNECTS \<Longrightarrow>
   handleDisconnect s = s\<lparr>disconnectCount := disconnectCount s + 1\<rparr>"
  by (simp add: handleDisconnect_def Let_def)

lemma handleDisconnect_reach:
  "disconnectCount s + 1 \<ge> MAX_DISCONNECTS \<Longrightarrow>
   handleDisconnect s = s\<lparr>disconnectCount := disconnectCount s + 1, exited := Some 1\<rparr>"
  by (simp add: handleDisconnect_def Let_def)

lemma watchdog_disconnect:
  "exited s = None \<Longrightarrow> is_disconnect e \<Longrightarrow> watchdog_listener s e = handleDisconnect s"
  by (cases e) simp_all

lemma watchdog_exited: "exited s \<noteq> None \<Longrightarrow> watchdog_listener s e = s"
  by (cases e) auto

lemma watchdog_run_exited: "exited s \<noteq> None \<Longrightarrow> watchdog_run s es = s"
  unfolding watchdog_run_def by (induction es) (simp_all add: watchdog_exited)

lemma watchdog_run_append: "watchdog_run s (es @ fs) = watchdog_run (watchdog_run s es) fs"
  by (simp add: watchdog_run_def)

lemma watchdog_run_below: "exited s = None \<Longrightarrow> list_all is_disconnect es \<Longrightarrow> disconnectCount s + length es < MAX_DISCONNECTS \<Longrightarrow>
   watchdog_run s es = s\<lparr>disconnectCount := disconnectCount s + length es\<rparr>"
  unfolding watchdog_run_def
proof (induction es arbitrary: s)
  case Nil then show ?case by simp
next
  case (Cons e es)
  let ?s1 = "s\<lparr>disconnectCount := disconnectCount s + 1\<rparr>"
  from Cons.prems have st: "watchdog_listener s e = ?s1"
    by (simp add: watchdog_disconnect handleDisconnect_below)
  have "foldl watchdog_listener ?s1 es = ?s1\<lparr>disconnectCount := disconnectCount ?s1 + length es\<rparr>"
    using Cons.prems by (intro Cons.IH) simp_all
  then show ?case by (simp add: st)
qed

lemma watchdog_run_exit:
  assumes "exited s = None" "list_all is_disconnect es" "disconnectCount s < MAX_DISCONNECTS"
  shows "exited (watchdog_run s es) =
           (if MAX_DISCONNECTS \<le> disconnectCount s + length es then Some 1 else None)"
  using assms
proof (induction es arbitrary: s)
  case Nil then show ?case by (simp add: watchdog_run_def)
next
  case (Cons e es)
  have step: "watchdog_listener s e = handleDisconnect s"
    using Cons.prems by (simp add: watchdog_disconnect)
  have unf: "watchdog_run s (e # es) = watchdog_run (handleDisconnect s) es"
    by (simp add: watchdog_run_def step)
  show ?case
  proof (cases "MAX_DISCONNECTS \<le> disconnectCount s + 1")
    case True
    then have "exited (handleDisconnect s) = Some 1"
      by (simp add: handleDisconnect_reach)
    then show ?thesis using True by (simp add: unf watchdog_run_exited)
  next
    case False
    then have h: "handleDisconnect s = s\<lparr>disconnectCount := disconnectCount s + 1\<rparr>"
      by (simp add: handleDisconnect_below)
    have "exited (watchdog_run (handleDisconnect s) es) =
           (if MAX_DISCONNECTS \<le> disconnectCount (handleDisconnect s) + length es then Some 1 else None)"
      using Cons.prems False by (intro Cons.IH) (simp_all add: h)
    then show ?thesis by (simp add: unf h)
  qed
qed

text \<open>
  Claim C3. In a running process every \<open>error\<close> or \<open>disconnected\<close> event adds one to
  the disconnect counter. Counting from a fresh object, or from any \<open>loggedOn\<close> event,
  \<open>process.exit(1)\<close> has been called after a run of such events exactly when the run
  has at least five of them, so it is the fifth that calls it; \<open>loggedOn\<close> sets the
  counter to zero, and the next disconnect makes it 1.
\<close>

theorem watchdog_counter:
  "(exited s = None \<and> is_disconnect e \<longrightarrow>
      disconnectCount (watchdog_listener s e) = disconnectCount s + 1)
   \<and> (list_all is_disconnect ds \<longrightarrow>
      (exited (watchdog_run new_watchdog ds) = Some 1) = (5 \<le> length ds)
      \<and> (length ds < 5 \<longrightarrow> watchdog_run new_watchdog ds = \<lparr>disconnectCount = length ds, exited = None\<rparr>))
   \<and> (exited s = None \<longrightarrow>
      disconnectCount (watchdog_listener s LoggedOn) = 0
      \<and> exited (watchdog_listener s LoggedOn) = None
      \<and> (is_disconnect e \<longrightarrow>
            disconnectCount (watchdog_listener (watchdog_listener s LoggedOn) e) = 1)
      \<and> (list_all is_disconnect ds \<longrightarrow>
            (exited (watchdog_run (watchdog_listener s LoggedOn) ds) = Some 1) = (5 \<le> length ds)))"
proof (intro conjI impI)
  assume "exited s = None \<and> is_disconnect e"
  then show "disconnectCount (watchdog_listener s e) = disconnectCount s + 1"
    by (simp add: watchdog_disconnect handleDisconnect_def Let_def)
next
  assume a: "list_all is_disconnect ds"
  show "(exited (watchdog_run new_watchdog ds) = Some 1) = (5 \<le> length ds)"
    using watchdog_run_exit [of new_watchdog ds] a
    by (simp add: new_watchdog_def MAX_DISCONNECTS_def)
next
  assume a: "list_all is_disconnect ds" and b: "length ds < 5"
  show "watchdog_run new_watchdog ds = \<lparr>disconnectCount = length ds, exited = None\<rparr>"
    using watchdog_run_below [of new_watchdog ds] a b
    by (simp add: new_watchdog_def MAX_DISCONNECTS_def)
next
  assume "exited s = None"
  then show "disconnectCount (watchdog_listener s LoggedOn) = 0" by simp
next
  assume "exited s = None"
  then show "exited (watchdog_listener s LoggedOn) = None" by simp
next
  assume "exited s = None" "is_disconnect e"
  then show "disconnectCount (watchdog_listener (watchdog_listener s LoggedOn) e) = 1"
    by (simp add: watchdog_disconnect handleDisconnect_def Let_def)
next
  assume a: "exited s = None" and b: "list_all is_disconnect ds"
  show "(exited (watchdog_run (watchdog_listener s LoggedOn) ds) = Some 1) = (5 \<le> length ds)"
    using watchdog_run_exit [of "watchdog_listener s LoggedOn" ds] a b
    by (simp add: MAX_DISCONNECTS_def)
qed

theorem watchdog_counter_witness:
  "exited new_watchdog = None \<and> is_disconnect (Disconnected 3 None)
   \<and> list_all is_disconnect
        [ClientError (Error ''x''), Disconnected 3 None, Disconnected 6 (Some ''m''),
         ClientError (NonError ''y''), Disconnected 3 None]
   \<and> disconnectCount (watchdog_listener new_watchdog (Disconnected 3 None)) = 1
   \<and> exited (watchdog_run new_watchdog
        [ClientError (Error ''x''), Disconnected 3 None, Disconnected 6 (Some ''m''),
         ClientError (NonError ''y''), Disconnected 3 None]) = Some 1
   \<and> exited (watchdog_run (watchdog_listener new_watchdog LoggedOn)
        [ClientError (Error ''x''), Disconnected 3 None, Disconnected 6 (Some ''m''),
         ClientError (NonError ''y''), Disconnected 3 None]) = Some 1"
  using watchdog_counter [of new_watchdog "Disconnected 3 None"
        "[ClientError (Error ''x''), Disconnected 3 None, Disconnected 6 (Some ''m''),
         ClientError (NonError ''y''), Disconnected 3 None]"]
  by (simp add: new_watchdog_def)

section \<open>Properties of the normalised record\<close>

lemma set_add_fold_distinct: "distinct acc \<Longrightarrow> distinct (foldl set_add acc xs)"
  by (induction xs arbitrary: acc) auto

lemma set_add_fold_set: "set (foldl set_add acc xs) = set acc \<union> set xs"
  by (induction xs arbitrary: acc) auto

lemma distinct_array_from_set: "distinct (array_from_set xs)"
  by (simp add: array_from_set_def set_add_fold_distinct)

lemma set_array_from_set: "set (array_from_set xs) = set xs"
  by (simp add: array_from_set_def set_add_fold_set)

lemma set_filter_numbers: "set (filter_numbers xs) = {n. JNum n \<in> set xs}"
  by (induction xs rule: filter_numbers.induct) auto

lemma medalIds_parse:
  "ochain (getprop profile ''medals'') ''display_items_defidx'' = Some (JArr xs) \<Longrightarrow>
   map medalId (medals (parseProfileResponse profile steamId now)) =
     array_from_set (filter_numbers xs)"
  by (simp add: parseProfileResponse_def Let_def comp_def)

text \<open>
  Claim C7. When the response carries a list under \<open>medals.display_items_defidx\<close>, the
  medal identifiers of the record are pairwise different, and they are exactly the
  numbers that occur in the list.
\<close>

theorem medals_unique_numeric:
  assumes "ochain (getprop profile ''medals'') ''display_items_defidx'' = Some (JArr xs)"
  shows "distinct (map medalId (medals (parseProfileResponse profile steamId now)))
       \<and> set (map medalId (medals (parseProfileResponse profile steamId now)))
           = {n. JNum n \<in> set xs}"
  using assms
  by (simp only: medalIds_parse distinct_array_from_set set_array_from_set set_filter_numbers)

theorem medals_unique_numeric_witness:
  "map medalId (medals (parseProfileResponse
      (JObj [(''account_id'', JNum 7),
             (''medals'', JObj [(''display_items_defidx'',
                 JArr [JNum 4873, JStr ''x'', JNum 970, JNull, JNum 4873])])])
      ''76561199441016438'' ''2024-01-01T00:00:00.000Z''))
   = [4873, 970]
   \<and> distinct [4873, 970 :: int]
   \<and> set [4873, 970] = {n. JNum n \<in> set [JNum 4873, JStr ''x'', JNum 970, JNull, JNum 4873]}"
  using medals_unique_numeric [of
      "JObj [(''account_id'', JNum 7),
             (''medals'', JObj [(''display_items_defidx'',
                 JArr [JNum 4873, JStr ''x'', JNum 970, JNull, JNum 4873])])]"
      "[JNum 4873, JStr ''x'', JNum 970, JNull, JNum 4873]"
      "''76561199441016438''" "''2024-01-01T00:00:00.000Z''"]
  by (simp add: parseProfileResponse_def array_from_set_def)

text \<open>
  Claim C8. The equipped medal of the record is the first element of the list under
  \<open>medals.display_items_defidx\<close>, and \<open>null\<close> when that list is empty, missing or not a
  list.
\<close>

theorem equipped_medal_first:
  "equippedMedal (parseProfileResponse profile steamId now) =
     (case ochain (getprop profile ''medals'') ''display_items_defidx'' of
        Some (JArr (x # xs)) \<Rightarrow> x
      | _ \<Rightarrow> JNull)"
  by (simp add: parseProfileResponse_def Let_def split: option.splits jsval.splits list.splits)

section \<open>Properties of \<open>fetchProfile\<close>\<close>

text \<open>
  Claim C1. For an identifier that is not seventeen decimal digits, \<open>fetchProfile\<close>
  only adds the new call, rejected with the invalid-identifier error and with no timer:
  the registered handlers are the same, and no method of the coordinator client has
  been called and no timer started or cleared.
\<close>

theorem fetchProfile_invalid_identifier:
  assumes "\<not> steamid_test steamId"
  shows "fetchProfile w steamId send =
           w\<lparr>calls := calls w @
               [\<lparr>call_steamId = steamId,
                 call_promise = Rejected (Error ''Invalid Steam ID 64 format. Must be 17 digits.''),
                 call_timer = False\<rparr>]\<rparr>
         \<and> listeners (fetchProfile w steamId send) = listeners w
         \<and> effects (fetchProfile w steamId send) = effects w"
  using assms
  by (simp add: fetchProfile_def Let_def reject_def update_call_def settle_def)

theorem fetchProfile_invalid_identifier_witness:
  "\<not> steamid_test ''1234''
   \<and> fetchProfile (new_ProfileFetcher False) ''1234'' SendOk =
       \<lparr>enableFileCache = False, listeners = [],
        calls = [\<lparr>call_steamId = ''1234'',
                  call_promise = Rejected (Error ''Invalid Steam ID 64 format. Must be 17 digits.''),
                  call_timer = False\<rparr>],
        effects = []\<rparr>"
proof -
  have a: "\<not> steamid_test ''1234''" by (simp add: steamid_test_def)
  show ?thesis
    using a fetchProfile_invalid_identifier [OF a, of "new_ProfileFetcher False" SendOk]
    by (simp add: new_ProfileFetcher_def)
qed

subsection \<open>The fields of the fetcher under its operations\<close>

lemma effect_proj [simp]:
  "listeners (effect w e) = listeners w" "calls (effect w e) = calls w"
  "effects (effect w e) = effects w @ [e]" "enableFileCache (effect w e) = enableFileCache w"
  by (simp_all add: effect_def)

lemma update_call_proj [simp]:
  "listeners (update_call w c f) = listeners w"
  "calls (update_call w c f) = (calls w)[c := f (calls w ! c)]"
  "effects (update_call w c f) = effects w"
  "enableFileCache (update_call w c f) = enableFileCache w"
  by (simp_all add: update_call_def)

lemma gc_once_proj [simp]:
  "listeners (gc_once w name h) = listeners w @ [(name, h)]" "calls (gc_once w name h) = calls w"
  "effects (gc_once w name h) = effects w @ [GcOnce name h]"
  "enableFileCache (gc_once w name h) = enableFileCache w"
  by (simp_all add: gc_once_def)

lemma gc_removeListener_proj [simp]:
  "listeners (gc_removeListener w name h) = remove_registration (listeners w) name h"
  "calls (gc_removeListener w name h) = calls w"
  "effects (gc_removeListener w name h) = effects w @ [GcRemoveListener name h]"
  "enableFileCache (gc_removeListener w name h) = enableFileCache w"
  by (simp_all add: gc_removeListener_def)

lemma setTimeout_proj [simp]:
  "listeners (setTimeout w c ms) = listeners w"
  "calls (setTimeout w c ms) = (calls w)[c := (calls w ! c)\<lparr>call_timer := True\<rparr>]"
  "effects (setTimeout w c ms) = effects w @ [SetTimeout c ms]"
  "enableFileCache (setTimeout w c ms) = enableFileCache w"
  by (simp_all add: setTimeout_def)

lemma clearTimeout_proj [simp]:
  "listeners (clearTimeout w c) = listeners w"
  "calls (clearTimeout w c) = (calls w)[c := (calls w ! c)\<lparr>call_timer := False\<rparr>]"
  "effects (clearTimeout w c) = effects w @ [ClearTimeout c]"
  "enableFileCache (clearTimeout w c) = enableFileCache w"
  by (simp_all add: clearTimeout_def)

lemma resolve_proj [simp]:
  "listeners (resolve w c p) = listeners w"
  "calls (resolve w c p) = (calls w)[c := settle (Resolved p) (calls w ! c)]"
  "effects (resolve w c p) = effects w"
  "enableFileCache (resolve w c p) = enableFileCache w"
  by (simp_all add: resolve_def)

lemma reject_proj [simp]:
  "listeners (reject w c e) = listeners w"
  "calls (reject w c e) = (calls w)[c := settle (Rejected e) (calls w ! c)]"
  "effects (reject w c e) = effects w"
  "enableFileCache (reject w c e) = enableFileCache w"
  by (simp_all add: reject_def)

subsection \<open>Registrations and removals\<close>

lemma filter_remove_registration:
  "filter P (remove_registration ls name h) = remove_registration (filter P ls) name h"
proof -
  have "filter P (rev (remove1 (name, h) (rev ls))) = rev (filter P (remove1 (name, h) (rev ls)))"
    by (rule rev_filter [symmetric])
  also have "\<dots> = rev (remove1 (name, h) (filter P (rev ls)))"
    by (simp only: filter_remove1)
  also have "\<dots> = rev (remove1 (name, h) (rev (filter P ls)))"
    by (simp only: rev_filter)
  finally show ?thesis by (simp only: remove_registration_def)
qed

lemma registrations_remove_other:
  assumes "c \<noteq> h"
  shows "map fst (filter (\<lambda>l. snd l = c) (remove_registration ls name h))
     = map fst (filter (\<lambda>l. snd l = c) ls)"
proof -
  have "(name, h) \<notin> set (rev (filter (\<lambda>l. snd l = c) ls))"
    using assms by auto
  then have "remove1 (name, h) (rev (filter (\<lambda>l. snd l = c) ls)) = rev (filter (\<lambda>l. snd l = c) ls)"
    by (rule remove1_idem)
  then have "remove_registration (filter (\<lambda>l. snd l = c) ls) name h = filter (\<lambda>l. snd l = c) ls"
    by (simp only: remove_registration_def rev_rev_ident)
  then show ?thesis
    by (simp only: filter_remove_registration)
qed

lemma registrations_remove_single:
  assumes "map fst (filter (\<lambda>l. snd l = c) ls) = [name]"
  shows "map fst (filter (\<lambda>l. snd l = c) (remove_registration ls name c)) = []"
proof -
  from assms obtain l where l: "filter (\<lambda>l. snd l = c) ls = [l]" "fst l = name"
    by (cases "filter (\<lambda>l. snd l = c) ls") auto
  then have "l \<in> set (filter (\<lambda>l. snd l = c) ls)" by simp
  then have "snd l = c" by simp
  with l have leq: "l = (name, c)" by (cases l) simp
  show ?thesis
    by (simp only: filter_remove_registration l(1) leq) (simp add: remove_registration_def)
qed

lemma registrations_remove_none:
  assumes "map fst (filter (\<lambda>l. snd l = c) ls) = []"
  shows "map fst (filter (\<lambda>l. snd l = c) (remove_registration ls name h)) = []"
  using assms by (simp only: filter_remove_registration) (simp add: remove_registration_def)

lemma registrations_simps [simp]:
  "registrations (effect w e) c = registrations w c"
  "registrations (update_call w h f) c = registrations w c"
  "registrations (setTimeout w h ms) c = registrations w c"
  "registrations (clearTimeout w h) c = registrations w c"
  "registrations (resolve w h p) c = registrations w c"
  "registrations (reject w h err) c = registrations w c"
  by (simp_all add: registrations_def)

lemma removeListener_calls_simps [simp]:
  "removeListener_calls (effect w e) c = removeListener_calls w c + (if is_removal c e then 1 else 0)"
  "removeListener_calls (update_call w h f) c = removeListener_calls w c"
  "removeListener_calls (setTimeout w h ms) c = removeListener_calls w c"
  "removeListener_calls (clearTimeout w h) c = removeListener_calls w c"
  "removeListener_calls (resolve w h p) c = removeListener_calls w c"
  "removeListener_calls (reject w h err) c = removeListener_calls w c"
  "removeListener_calls (gc_once w name h) c = removeListener_calls w c"
  "removeListener_calls (gc_removeListener w name h) c =
     removeListener_calls w c + (if h = c then 1 else 0)"
  "removeListener_calls (w\<lparr>listeners := ls\<rparr>) c = removeListener_calls w c"
  "removeListener_calls (w\<lparr>calls := ks\<rparr>) c = removeListener_calls w c"
  by (simp_all add: removeListener_calls_def)

lemma registrations_listeners_update:
  "registrations (w\<lparr>listeners := ls\<rparr>) c = map fst (filter (\<lambda>l. snd l = c) ls)"
  "registrations (w\<lparr>calls := ks\<rparr>) c = registrations w c"
  by (simp_all add: registrations_def)

lemma registrations_gc_once:
  "registrations (gc_once w name h) c = registrations w c @ (if h = c then [name] else [])"
  by (simp add: registrations_def)

lemma registrations_gc_removeListener_other:
  "c \<noteq> h \<Longrightarrow> registrations (gc_removeListener w name h) c = registrations w c"
  by (simp add: registrations_def registrations_remove_other)

lemma registrations_gc_removeListener_none:
  "registrations w c = [] \<Longrightarrow> registrations (gc_removeListener w name h) c = []"
  by (simp add: registrations_def registrations_remove_none)

lemma registrations_gc_removeListener_single:
  "registrations w c = [name] \<Longrightarrow> registrations (gc_removeListener w name c) c = []"
  by (simp add: registrations_def registrations_remove_single)

lemma registrations_unregister_other:
  "c \<noteq> h \<Longrightarrow> registrations (w\<lparr>listeners := remove_registration (listeners w) name h\<rparr>) c
     = registrations w c"
  by (simp add: registrations_def registrations_remove_other)

lemma registrations_unregister_single:
  "registrations w c = [name] \<Longrightarrow>
   registrations (w\<lparr>listeners := remove_registration (listeners w) name c\<rparr>) c = []"
  by (simp add: registrations_def registrations_remove_single)

subsection \<open>Callbacks leave other calls alone\<close>

lemma responseHandler_other:
  assumes "c \<noteq> h"
  shows "local_state (responseHandler w h p now s) c = local_state w c"
  using assms
  by (simp add: responseHandler_def local_state_def Let_def
        registrations_gc_removeListener_other split: option.splits)

lemma once_wrapper_other:
  assumes "c \<noteq> h"
  shows "local_state (once_wrapper w name h p now s) c = local_state w c"
proof -
  have "local_state (once_wrapper w name h p now s) c
        = local_state (w\<lparr>listeners := remove_registration (listeners w) name h\<rparr>) c"
    unfolding once_wrapper_def using assms by (rule responseHandler_other)
  also have "\<dots> = local_state w c"
    using assms by (simp add: local_state_def registrations_unregister_other)
  finally show ?thesis .
qed

lemma timer_fires_other:
  assumes "c \<noteq> h"
  shows "local_state (timer_fires w h) c = local_state w c"
  using assms
  by (simp add: timer_fires_def timeout_callback_def local_state_def Let_def
        registrations_gc_removeListener_other)

lemma fetchProfile_other:
  assumes "c < length (calls w)"
  shows "local_state (fetchProfile w steamId send) c = local_state w c"
  using assms
  by (simp add: fetchProfile_def send_failed_def local_state_def Let_def nth_append
        registrations_gc_removeListener_other registrations_gc_once
        registrations_listeners_update split: send_behaviour.splits)

lemma length_calls_responseHandler [simp]:
  "length (calls (responseHandler w h p now s)) = length (calls w)"
  by (simp add: responseHandler_def Let_def split: option.splits)

lemma length_calls_once_wrapper [simp]:
  "length (calls (once_wrapper w name h p now s)) = length (calls w)"
  by (simp add: once_wrapper_def)

lemma length_calls_timer_fires [simp]:
  "length (calls (timer_fires w h)) = length (calls w)"
  by (simp add: timer_fires_def timeout_callback_def Let_def)

lemma length_calls_fetchProfile [simp]:
  "length (calls (fetchProfile w steamId send)) = Suc (length (calls w))"
  by (simp add: fetchProfile_def send_failed_def Let_def split: send_behaviour.splits)

subsection \<open>The states of a call are preserved\<close>

lemma steamId64_parse [simp]:
  "steamId64 (parseProfileResponse profile steamId now) = steamId"
  by (simp add: parseProfileResponse_def Let_def)

lemma once_wrapper_own:
  assumes "c < length (calls w)" and "phase_ok (local_state w c)"
    and "name \<in> set (registrations w c)"
  shows "phase_ok (local_state (once_wrapper w name c p now s) c)"
proof -
  let ?k = "calls w ! c"
  from assms(2,3) have valid: "steamid_test (call_steamId ?k)"
    by (auto simp: phase_ok_def local_state_def split: if_splits)
  from assms(2,3) valid have pend: "call_promise ?k = Pending"
    by (auto simp: phase_ok_def local_state_def split: if_splits)
  from assms(2,3) valid pend have rs: "registrations w c = [name]"
    and nm: "name = eventName (call_steamId ?k)"
    and tm: "call_timer ?k" and n: "removeListener_calls w c = 0"
    by (auto simp: phase_ok_def local_state_def split: if_splits)
  let ?w1 = "w\<lparr>listeners := remove_registration (listeners w) name c\<rparr>"
  have r1: "registrations ?w1 c = []"
    using rs by (rule registrations_unregister_single)
  have k1: "calls ?w1 = calls w" by simp
  have n1: "removeListener_calls ?w1 c = 0" using n by simp
  show ?thesis
    unfolding once_wrapper_def
    using assms(1) valid pend tm r1 n1
    by (simp add: responseHandler_def local_state_def phase_ok_def Let_def settle_def
          registrations_gc_removeListener_none split: option.splits)
qed

lemma timer_fires_own:
  assumes "c < length (calls w)" and "phase_ok (local_state w c)"
  shows "phase_ok (local_state (timer_fires w c) c)"
proof (cases "call_timer (calls w ! c)")
  case False
  then show ?thesis using assms by (simp add: timer_fires_def)
next
  case True
  let ?k = "calls w ! c"
  from assms(2) True have valid: "steamid_test (call_steamId ?k)"
    by (auto simp: phase_ok_def local_state_def split: if_splits)
  from assms(2) True valid have pend: "call_promise ?k = Pending"
    by (auto simp: phase_ok_def local_state_def split: if_splits)
  from assms(2) True valid pend have n: "removeListener_calls w c = 0"
    and rs: "registrations w c = [] \<or> registrations w c = [eventName (call_steamId ?k)]"
    by (auto simp: phase_ok_def local_state_def split: if_splits)
  from rs have r1: "registrations (gc_removeListener
       (update_call w c (\<lambda>k. k\<lparr>call_timer := False\<rparr>)) (eventName (call_steamId ?k)) c) c = []"
    by (auto simp: registrations_gc_removeListener_none registrations_gc_removeListener_single)
  show ?thesis
    using assms(1) True valid pend n r1
    by (simp add: timer_fires_def timeout_callback_def local_state_def phase_ok_def Let_def
          settle_def)
qed

lemma fetchProfile_outside:
  assumes "c \<noteq> length (calls w)"
  shows "registrations (fetchProfile w steamId send) c = registrations w c"
    and "removeListener_calls (fetchProfile w steamId send) c = removeListener_calls w c"
  using assms
  by (simp_all add: fetchProfile_def send_failed_def Let_def
        registrations_gc_removeListener_other registrations_gc_once
        registrations_listeners_update split: send_behaviour.splits)

lemma fetchProfile_new:
  assumes "registrations w (length (calls w)) = []"
    and "removeListener_calls w (length (calls w)) = 0"
  shows "phase_ok (local_state (fetchProfile w steamId send) (length (calls w)))"
proof (cases "steamid_test steamId")
  case False
  then show ?thesis using assms
    by (simp add: fetchProfile_def Let_def local_state_def phase_ok_def settle_def
          registrations_listeners_update)
next
  case True
  let ?c = "length (calls w)"
  let ?w0 = "w\<lparr>calls := calls w @
                 [\<lparr>call_steamId = steamId, call_promise = Pending, call_timer = False\<rparr>]\<rparr>"
  have r: "registrations (gc_once ?w0 (eventName steamId) ?c) ?c = [eventName steamId]"
    using assms(1) by (simp add: registrations_gc_once registrations_listeners_update)
  show ?thesis
  proof (cases send)
    case SendOk
    then show ?thesis using True assms r
      by (simp add: fetchProfile_def Let_def local_state_def phase_ok_def)
  next
    case (SendThrows e)
    then show ?thesis using True assms r
      by (simp add: fetchProfile_def send_failed_def Let_def local_state_def phase_ok_def
            settle_def registrations_gc_removeListener_single)
  next
    case SendMissing
    then show ?thesis using True assms r
      by (simp add: fetchProfile_def send_failed_def Let_def local_state_def phase_ok_def
            settle_def registrations_gc_removeListener_single)
  qed
qed

lemma fetchProfile_inv:
  assumes "fetcher_inv w"
  shows "fetcher_inv (fetchProfile w steamId send)"
  unfolding fetcher_inv_def
proof (intro allI)
  fix c
  consider "c < length (calls w)" | "c = length (calls w)" | "c > length (calls w)"
    by linarith
  then show "if c < length (calls (fetchProfile w steamId send))
             then phase_ok (local_state (fetchProfile w steamId send) c)
             else registrations (fetchProfile w steamId send) c = [] \<and>
                  removeListener_calls (fetchProfile w steamId send) c = 0"
  proof cases
    case 1
    with assms have "phase_ok (local_state w c)" by (simp add: fetcher_inv_def)
    with 1 show ?thesis by (simp add: fetchProfile_other)
  next
    case 2
    from assms have "registrations w (length (calls w)) = []"
      and "removeListener_calls w (length (calls w)) = 0"
      by (simp_all add: fetcher_inv_def)
    then have "phase_ok (local_state (fetchProfile w steamId send) (length (calls w)))"
      by (rule fetchProfile_new)
    with 2 show ?thesis by simp
  next
    case 3
    with assms have "registrations w c = []" and "removeListener_calls w c = 0"
      by (simp_all add: fetcher_inv_def)
    with 3 show ?thesis by (simp add: fetchProfile_outside)
  qed
qed

lemma local_state_eqD:
  assumes "local_state w' c = local_state w c"
  shows "registrations w' c = registrations w c"
    and "removeListener_calls w' c = removeListener_calls w c"
    and "calls w' ! c = calls w ! c"
  using assms by (simp_all add: local_state_def)

lemma timer_fires_inv:
  assumes "fetcher_inv w"
  shows "fetcher_inv (timer_fires w h)"
  unfolding fetcher_inv_def
proof (intro allI)
  fix c
  show "if c < length (calls (timer_fires w h))
        then phase_ok (local_state (timer_fires w h) c)
        else registrations (timer_fires w h) c = [] \<and> removeListener_calls (timer_fires w h) c = 0"
  proof (cases "c = h")
    case True
    show ?thesis
    proof (cases "c < length (calls w)")
      case True
      with assms have "phase_ok (local_state w c)" by (simp add: fetcher_inv_def)
      with True have "phase_ok (local_state (timer_fires w c) c)" by (rule timer_fires_own)
      with True \<open>c = h\<close> show ?thesis by simp
    next
      case False
      with \<open>c = h\<close> have "timer_fires w h = w" by (simp add: timer_fires_def)
      with False assms show ?thesis by (simp add: fetcher_inv_def)
    qed
  next
    case False
    then have eq: "local_state (timer_fires w h) c = local_state w c"
      by (rule timer_fires_other)
    show ?thesis
      using assms local_state_eqD [OF eq]
      by (simp add: fetcher_inv_def eq)
  qed
qed

lemma registered_in_range:
  assumes "fetcher_inv w" and "name \<in> set (registrations w h)"
  shows "h < length (calls w)"
proof (rule ccontr)
  assume "\<not> h < length (calls w)"
  with assms(1) have "registrations w h = []" by (simp add: fetcher_inv_def)
  with assms(2) show False by simp
qed

lemma once_wrapper_inv:
  assumes "fetcher_inv w" and "name \<in> set (registrations w h)"
  shows "fetcher_inv (once_wrapper w name h p now s)"
  unfolding fetcher_inv_def
proof (intro allI)
  fix c
  from assms have h: "h < length (calls w)" by (rule registered_in_range)
  show "if c < length (calls (once_wrapper w name h p now s))
        then phase_ok (local_state (once_wrapper w name h p now s) c)
        else registrations (once_wrapper w name h p now s) c = [] \<and>
             removeListener_calls (once_wrapper w name h p now s) c = 0"
  proof (cases "c = h")
    case True
    from assms(1) h have "phase_ok (local_state w h)" by (simp add: fetcher_inv_def)
    with h have "phase_ok (local_state (once_wrapper w name h p now s) h)"
      using assms(2) by (rule once_wrapper_own)
    with True h show ?thesis by simp
  next
    case False
    then have eq: "local_state (once_wrapper w name h p now s) c = local_state w c"
      by (rule once_wrapper_other)
    show ?thesis
      using assms(1) local_state_eqD [OF eq]
      by (simp add: fetcher_inv_def eq)
  qed
qed

lemma handlers_of_iff: "h \<in> set (handlers_of w name) \<longleftrightarrow> name \<in> set (registrations w h)"
  by (auto simp: handlers_of_def registrations_def image_iff)

lemma distinct_snd_if_single:
  "(\<And>h. length (filter (\<lambda>l. snd l = h) ls) \<le> 1) \<Longrightarrow> distinct (map snd ls)"
proof (induction ls)
  case Nil then show ?case by simp
next
  case (Cons l ls)
  have tail: "\<And>h. length (filter (\<lambda>l. snd l = h) ls) \<le> 1"
  proof -
    fix h
    have "length (filter (\<lambda>l. snd l = h) ls) \<le> length (filter (\<lambda>l. snd l = h) (l # ls))"
      by simp
    also have "\<dots> \<le> 1" by (rule Cons.prems)
    finally show "length (filter (\<lambda>l. snd l = h) ls) \<le> 1" .
  qed
  have "snd l \<notin> snd ` set ls"
  proof
    assume "snd l \<in> snd ` set ls"
    then obtain l' where "l' \<in> set ls" "snd l' = snd l" by auto
    then have "filter (\<lambda>x. snd x = snd l) ls \<noteq> []"
      by (auto simp: filter_empty_conv)
    then have "length (filter (\<lambda>x. snd x = snd l) ls) \<ge> 1"
      by (cases "filter (\<lambda>x. snd x = snd l) ls") simp_all
    then have "length (filter (\<lambda>x. snd x = snd l) (l # ls)) \<ge> 2" by simp
    with Cons.prems [of "snd l"] show False by simp
  qed
  with Cons.IH [OF tail] show ?case by simp
qed

lemma inv_registrations_single:
  assumes "fetcher_inv w"
  shows "length (registrations w h) \<le> 1"
proof (cases "h < length (calls w)")
  case True
  with assms have "phase_ok (local_state w h)" by (simp add: fetcher_inv_def)
  then show ?thesis
    by (auto simp: phase_ok_def local_state_def split: if_splits)
next
  case False
  with assms show ?thesis by (simp add: fetcher_inv_def)
qed

lemma distinct_handlers_of:
  assumes "fetcher_inv w"
  shows "distinct (handlers_of w name)"
proof -
  have "\<And>h. length (filter (\<lambda>l. snd l = h) (listeners w)) \<le> 1"
    using inv_registrations_single [OF assms] by (simp add: registrations_def)
  then have "distinct (map snd (listeners w))" by (rule distinct_snd_if_single)
  then show ?thesis unfolding handlers_of_def by (rule distinct_map_filter)
qed

lemma emit_handlers: "emit w name p now save =
    foldl (\<lambda>w' c. once_wrapper w' name c p now (save c)) w (handlers_of w name)"
  by (simp add: emit_def handlers_of_def)

lemma wrappers_inv:
  assumes "fetcher_inv w" and "distinct cs"
    and "\<And>h. h \<in> set cs \<Longrightarrow> name \<in> set (registrations w h)"
  shows "fetcher_inv (foldl (\<lambda>w' c. once_wrapper w' name c p now (save c)) w cs)"
  using assms
proof (induction cs arbitrary: w)
  case Nil then show ?case by simp
next
  case (Cons h cs)
  let ?w1 = "once_wrapper w name h p now (save h)"
  have i1: "fetcher_inv ?w1"
    using Cons.prems(1) Cons.prems(3) [of h] by (simp add: once_wrapper_inv)
  have r1: "\<And>h'. h' \<in> set cs \<Longrightarrow> name \<in> set (registrations ?w1 h')"
  proof -
    fix h' assume a: "h' \<in> set cs"
    with Cons.prems(2) have "h' \<noteq> h" by auto
    then have "local_state ?w1 h' = local_state w h'" by (rule once_wrapper_other)
    then have "registrations ?w1 h' = registrations w h'" by (rule local_state_eqD)
    with Cons.prems(3) [of h'] a show "name \<in> set (registrations ?w1 h')" by simp
  qed
  from Cons.prems(2) have "distinct cs" by simp
  with i1 have "fetcher_inv (foldl (\<lambda>w' c. once_wrapper w' name c p now (save c)) ?w1 cs)"
    using r1 by (rule Cons.IH)
  then show ?case by simp
qed

lemma emit_inv:
  assumes "fetcher_inv w"
  shows "fetcher_inv (emit w name p now save)"
  unfolding emit_handlers
  using assms distinct_handlers_of [OF assms]
  by (rule wrappers_inv) (simp add: handlers_of_iff)

lemma fetcher_step_inv: "fetcher_inv w \<Longrightarrow> fetcher_inv (fetcher_step w e)"
  by (cases e) (simp_all add: fetchProfile_inv emit_inv timer_fires_inv)

lemma fetcher_run_inv: "fetcher_inv w \<Longrightarrow> fetcher_inv (fetcher_run w es)"
  unfolding fetcher_run_def
  by (induction es arbitrary: w) (simp_all add: fetcher_step_inv)

lemma new_ProfileFetcher_inv: "fetcher_inv (new_ProfileFetcher cache)"
  by (simp add: fetcher_inv_def new_ProfileFetcher_def registrations_def removeListener_calls_def)

lemma reachable_inv: "fetcher_inv (fetcher_run (new_ProfileFetcher cache) es)"
  by (rule fetcher_run_inv) (rule new_ProfileFetcher_inv)

subsection \<open>Events that do not concern a call\<close>





lemma length_calls_wrappers [simp]:
  "length (calls (foldl (\<lambda>w' h. once_wrapper w' name h p now (save h)) w cs)) = length (calls w)"
  by (induction cs arbitrary: w) simp_all

lemma length_calls_emit [simp]: "length (calls (emit w name p now save)) = length (calls w)"
  by (simp add: emit_def)

lemma length_calls_step: "length (calls w) \<le> length (calls (fetcher_step w e))"
  by (cases e) simp_all





lemma length_calls_run: "length (calls w) \<le> length (calls (fetcher_run w es))"
  unfolding fetcher_run_def
proof (induction es arbitrary: w)
  case Nil then show ?case by simp
next
  case (Cons e es)
  have "length (calls w) \<le> length (calls (fetcher_step w e))" by (rule length_calls_step)
  also have "\<dots> \<le> length (calls (foldl fetcher_step (fetcher_step w e) es))" by (rule Cons.IH)
  finally show ?case by simp
qed




lemma identifiers_update:
  assumes "\<And>k. call_steamId (g k) = call_steamId k"
  shows "map call_steamId (xs[h := g (xs ! h)]) = map call_steamId xs"
proof (cases "h < length xs")
  case True
  have "map call_steamId (xs[h := g (xs ! h)]) = (map call_steamId xs)[h := call_steamId (g (xs ! h))]"
    by (rule map_update)
  also have "\<dots> = (map call_steamId xs)[h := (map call_steamId xs) ! h]"
    using True assms by simp
  also have "\<dots> = map call_steamId xs" by (rule list_update_id)
  finally show ?thesis .
next
  case False
  then have "xs[h := g (xs ! h)] = xs" by (simp add: list_update_beyond)
  then show ?thesis by simp
qed

lemma identifiers_simps [simp]:
  "identifiers (effect w e) = identifiers w"
  "identifiers (gc_once w name h) = identifiers w"
  "identifiers (gc_removeListener w name h) = identifiers w"
  "identifiers (setTimeout w h ms) = identifiers w"
  "identifiers (clearTimeout w h) = identifiers w"
  "identifiers (resolve w h p) = identifiers w"
  "identifiers (reject w h err) = identifiers w"
  "identifiers (w\<lparr>listeners := ls\<rparr>) = identifiers w"
  by (simp_all add: identifiers_def identifiers_update settle_def)

lemma identifiers_timer_off [simp]:
  "identifiers (update_call w h (\<lambda>k. k\<lparr>call_timer := False\<rparr>)) = identifiers w"
  by (simp add: identifiers_def identifiers_update)

lemma identifiers_responseHandler [simp]:
  "identifiers (responseHandler w h p now s) = identifiers w"
  by (simp add: responseHandler_def Let_def split: option.splits)

lemma identifiers_once_wrapper [simp]:
  "identifiers (once_wrapper w name h p now s) = identifiers w"
  by (simp add: once_wrapper_def)

lemma identifiers_emit [simp]: "identifiers (emit w name p now save) = identifiers w"
proof -
  have "\<And>cs. identifiers (foldl (\<lambda>w' h. once_wrapper w' name h p now (save h)) w cs)
           = identifiers w"
  proof -
    fix cs show "identifiers (foldl (\<lambda>w' h. once_wrapper w' name h p now (save h)) w cs)
           = identifiers w"
      by (induction cs arbitrary: w) simp_all
  qed
  then show ?thesis by (simp add: emit_def)
qed

lemma identifiers_timer_fires [simp]: "identifiers (timer_fires w h) = identifiers w"
  by (simp add: timer_fires_def timeout_callback_def Let_def)

lemma identifiers_fetchProfile [simp]:
  "identifiers (fetchProfile w steamId send) = identifiers w @ [steamId]"
proof -
  have "identifiers (w\<lparr>calls := calls w @
          [\<lparr>call_steamId = steamId, call_promise = Pending, call_timer = False\<rparr>]\<rparr>)
        = identifiers w @ [steamId]"
    by (simp add: identifiers_def)
  then show ?thesis
    by (simp add: fetchProfile_def send_failed_def Let_def split: send_behaviour.splits)
qed

lemma identifiers_step_prefix:
  "\<exists>more. identifiers (fetcher_step w e) = identifiers w @ more"
  by (cases e) simp_all

lemma identifiers_run_prefix:
  "\<exists>more. identifiers (fetcher_run w es) = identifiers w @ more"
  unfolding fetcher_run_def
proof (induction es arbitrary: w)
  case Nil then show ?case by simp
next
  case (Cons e es)
  obtain m1 where m1: "identifiers (fetcher_step w e) = identifiers w @ m1"
    using identifiers_step_prefix by blast
  obtain m2 where "identifiers (foldl fetcher_step (fetcher_step w e) es)
                   = identifiers (fetcher_step w e) @ m2"
    using Cons.IH by blast
  with m1 show ?case by simp
qed

lemma steamId_run:
  assumes "c < length (calls w)"
  shows "call_steamId (calls (fetcher_run w es) ! c) = call_steamId (calls w ! c)"
proof -
  obtain more where m: "identifiers (fetcher_run w es) = identifiers w @ more"
    using identifiers_run_prefix by blast
  from assms have c: "c < length (identifiers w)" by (simp add: identifiers_def)
  from m have "length (identifiers w) \<le> length (identifiers (fetcher_run w es))" by simp
  with c have c2: "c < length (calls (fetcher_run w es))" by (simp add: identifiers_def)
  from m c have "identifiers (fetcher_run w es) ! c = identifiers w ! c"
    by (simp add: nth_append)
  with assms c2 show ?thesis by (simp add: identifiers_def)
qed

lemma steamId_fetchProfile:
  "call_steamId (calls (fetchProfile w steamId send) ! length (calls w)) = steamId"
proof -
  have "identifiers (fetchProfile w steamId send) ! length (calls w) = steamId"
    by (simp add: nth_append) (simp add: identifiers_def)
  then show ?thesis by (simp add: identifiers_def)
qed

lemma fetcher_run_append:
  "fetcher_run w (es @ e # fs) = fetcher_run (fetcher_step (fetcher_run w es) e) fs"
  by (simp add: fetcher_run_def)

lemmas fetcher_defs = fetcher_run_def fetchProfile_def emit_def once_wrapper_def responseHandler_def
  timer_fires_def timeout_callback_def send_failed_def gc_once_def gc_removeListener_def
  setTimeout_def clearTimeout_def resolve_def reject_def update_call_def settle_def effect_def
  remove_registration_def eventName_def new_ProfileFetcher_def PROFILE_REQUEST_TIMEOUT_MS_def
  steamid_test_def is_digit_def Let_def



text \<open>
  Claim C10. Whenever the promise of a \<open>fetchProfile\<close> call is resolved, at any point
  of any history, the \<open>steamId64\<close> of the profile is the identifier the call was made
  with: \<open>parseProfileResponse\<close> copies its argument, whatever the response holds.
\<close>

theorem resolved_profile_has_requested_identifier:
  assumes "call_promise
             (calls (fetcher_run (new_ProfileFetcher cache) (past @ Fetch steamId send # later))
                ! length (calls (fetcher_run (new_ProfileFetcher cache) past))) = Resolved profile"
  shows "steamId64 profile = steamId
       \<and> steamId64 (parseProfileResponse response steamId now) = steamId"
proof -
  let ?before = "fetcher_run (new_ProfileFetcher cache) past"
  let ?started = "fetchProfile ?before steamId send"
  let ?after = "fetcher_run (new_ProfileFetcher cache) (past @ Fetch steamId send # later)"
  let ?c = "length (calls ?before)"
  have unf: "?after = fetcher_run ?started later" by (simp add: fetcher_run_append)
  have c1: "?c < length (calls ?started)" by simp
  with length_calls_run [of ?started later] have c2: "?c < length (calls ?after)"
    by (simp add: unf)
  have "call_steamId (calls ?after ! ?c) = call_steamId (calls ?started ! ?c)"
    unfolding unf using c1 by (rule steamId_run)
  then have sid: "call_steamId (calls ?after ! ?c) = steamId"
    by (simp add: steamId_fetchProfile)
  have "fetcher_inv ?after" by (rule reachable_inv)
  with c2 have "phase_ok (local_state ?after ?c)" by (simp add: fetcher_inv_def)
  with assms sid have "steamId64 profile = steamId"
    by (auto simp: phase_ok_def local_state_def split: if_splits)
  then show ?thesis by simp
qed

theorem resolved_profile_has_requested_identifier_witness:
  "call_promise
     (calls (fetcher_run (new_ProfileFetcher False)
               ([Fetch ''76561199441016439'' SendOk] @ Fetch ''76561199441016438'' SendOk #
                [Emit ''playersProfile#76561199441016438''
                   (Some (JObj [(''account_id'', JNum 999)])) ''t'' (\<lambda>c. None)]))
        ! length (calls (fetcher_run (new_ProfileFetcher False) [Fetch ''76561199441016439'' SendOk])))
     = Resolved (parseProfileResponse (JObj [(''account_id'', JNum 999)]) ''76561199441016438'' ''t'')
   \<and> steamId64 (parseProfileResponse (JObj [(''account_id'', JNum 999)]) ''76561199441016438'' ''t'')
       = ''76561199441016438''
   \<and> steamId64 (parseProfileResponse (JObj []) ''76561199441016438'' ''t'') = ''76561199441016438''"
proof -
  have a: "call_promise
     (calls (fetcher_run (new_ProfileFetcher False)
               ([Fetch ''76561199441016439'' SendOk] @ Fetch ''76561199441016438'' SendOk #
                [Emit ''playersProfile#76561199441016438''
                   (Some (JObj [(''account_id'', JNum 999)])) ''t'' (\<lambda>c. None)]))
        ! length (calls (fetcher_run (new_ProfileFetcher False) [Fetch ''76561199441016439'' SendOk])))
     = Resolved (parseProfileResponse (JObj [(''account_id'', JNum 999)]) ''76561199441016438'' ''t'')"
    by (simp add: fetcher_defs)
  from resolved_profile_has_requested_identifier [OF a, of "JObj []" "''t''"] a
  show ?thesis by simp
qed

section \<open>Properties of the request routing\<close>

text \<open>
  Claim C9. The profile endpoint answers 400 to a malformed identifier; for a
  well-formed one it answers 503 while the coordinator is not ready; and when it has
  called \<open>fetchProfile\<close> (no cached profile is served) and the promise rejects, it answers
  500 with the message of the error in the body.
\<close>

theorem route_error_mapping:
  "(\<not> steamid_test steamId \<longrightarrow>
      profile_route gc cache cached force steamId fetched =
        Some \<lparr>status = 400, json = ErrorBody ''Invalid Steam ID 64 format. Must be 17 digits.''\<rparr>)
   \<and> (steamid_test steamId \<and> \<not> isGcReady gc \<longrightarrow>
      profile_route gc cache cached force steamId fetched =
        Some \<lparr>status = 503,
              json = ErrorBody ''Game Coordinator not ready. Please wait for connection.''\<rparr>)
   \<and> (steamid_test steamId \<and> isGcReady gc \<and> (cache \<and> \<not> force \<longrightarrow> cached = None) \<longrightarrow>
      profile_route gc cache cached force steamId (Rejected error) =
        Some \<lparr>status = 500,
              json = FailureBody ''Failed to fetch player profile'' (errorMessage error)\<rparr>)"
  by (auto simp: profile_route_def)

theorem route_error_mapping_witness:
  "\<not> steamid_test ''7656119944101643x'' \<and> steamid_test ''76561199441016438''
   \<and> \<not> isGcReady new_GCConnection \<and> isGcReady (gc_listener new_GCConnection ConnectedToGC)
   \<and> profile_route new_GCConnection False None False ''7656119944101643x'' Pending =
        Some \<lparr>status = 400, json = ErrorBody ''Invalid Steam ID 64 format. Must be 17 digits.''\<rparr>
   \<and> profile_route new_GCConnection False None False ''76561199441016438'' Pending =
        Some \<lparr>status = 503,
              json = ErrorBody ''Game Coordinator not ready. Please wait for connection.''\<rparr>
   \<and> profile_route (gc_listener new_GCConnection ConnectedToGC) True None False
        ''76561199441016438''
        (Rejected (Error ''Timeout waiting for profile response for 76561199441016438'')) =
        Some \<lparr>status = 500,
              json = FailureBody ''Failed to fetch player profile''
                ''Timeout waiting for profile response for 76561199441016438''\<rparr>"
proof -
  have a: "\<not> steamid_test ''7656119944101643x''"
    by (simp add: steamid_test_def is_digit_def)
  have b: "steamid_test ''76561199441016438''"
    by (simp add: steamid_test_def is_digit_def)
  have c: "\<not> isGcReady new_GCConnection"
    by (simp add: isGcReady_def new_GCConnection_def)
  have d: "isGcReady (gc_listener new_GCConnection ConnectedToGC)"
    by (simp add: isGcReady_def)
  show ?thesis
    using a b c d
      route_error_mapping [where steamId = "''7656119944101643x''" and gc = new_GCConnection
         and cache = False and cached = None and force = False and fetched = Pending]
      route_error_mapping [where steamId = "''76561199441016438''" and gc = new_GCConnection
         and cache = False and cached = None and force = False and fetched = Pending]
      route_error_mapping [where steamId = "''76561199441016438''"
         and gc = "gc_listener new_GCConnection ConnectedToGC"
         and cache = True and cached = None and force = False
         and error = "Error ''Timeout waiting for profile response for 76561199441016438''"]
    by simp
qed

section \<open>Properties of the login and of the credential files\<close>

text \<open>
  Claim C5, as stated, fails. For the same error of the presence client, a failed key
  login rejects with the very value a failed password login rejects with: no error of
  the code tells the two apart. And when the error is the fifth failure the watchdog
  counts, the process exits with the key file still in place and the promise pending.
\<close>

theorem key_login_failure_counterexample:
  "snd (snd (login
       \<lparr>env_answer = AnswerError (Error ''InvalidPassword''), env_loginKeys = [],
        env_machineAuthToken = None, env_generateAuthCode = (\<lambda>s. ''00000''),
        env_stringify = (\<lambda>v. ''{}''), env_now = ''2024-01-01T00:00:00.000Z''\<rparr>
       \<lparr>accountName = ''bot'', token_file = None, sentry_file = None,
        loginKey_file = Some '' k3y '', logOn_calls = []\<rparr>
       new_watchdog ''bot'' ''hunter2'' None))
   = snd (snd (login
       \<lparr>env_answer = AnswerError (Error ''InvalidPassword''), env_loginKeys = [],
        env_machineAuthToken = None, env_generateAuthCode = (\<lambda>s. ''00000''),
        env_stringify = (\<lambda>v. ''{}''), env_now = ''2024-01-01T00:00:00.000Z''\<rparr>
       \<lparr>accountName = ''bot'', token_file = None, sentry_file = None,
        loginKey_file = None, logOn_calls = []\<rparr>
       new_watchdog ''bot'' ''hunter2'' None))
   \<and> login
       \<lparr>env_answer = AnswerError (Error ''InvalidPassword''), env_loginKeys = [],
        env_machineAuthToken = None, env_generateAuthCode = (\<lambda>s. ''00000''),
        env_stringify = (\<lambda>v. ''{}''), env_now = ''2024-01-01T00:00:00.000Z''\<rparr>
       \<lparr>accountName = ''bot'', token_file = None, sentry_file = None,
        loginKey_file = Some '' k3y '', logOn_calls = []\<rparr>
       \<lparr>disconnectCount = 4, exited = None\<rparr> ''bot'' ''hunter2'' None
     = (\<lparr>accountName = ''bot'', token_file = None, sentry_file = None,
         loginKey_file = Some '' k3y '',
         logOn_calls = [no_options\<lparr>opt_accountName := Some ''bot'', opt_loginKey := Some ''k3y''\<rparr>]\<rparr>,
        \<lparr>disconnectCount = 5, exited = Some 1\<rparr>,
        Pending)"
  by (simp add: login_def loginWithKey_def loginWithPassword_def passwordLoginOptions_def
        keyLoginOptions_def loadLoginKey_def loadMachineAuthToken_def loadSentryFile_def
        trim_def is_space_def startsWith_def handleInvalidLoginKey_def handleDisconnect_def
        new_watchdog_def MAX_DISCONNECTS_def Let_def)

text \<open>
  Claim C5, amended. Let \<open>login\<close> find a session key or refresh token on disk and the
  presence client answer the \<open>logOn\<close> with an error, in a running process. While the
  watchdog has counted fewer than four failures since the last successful login, the key
  file is deleted and the promise is rejected with the client's own error (as an
  \<open>Error\<close>; a password login rejects with the same value); when this error is the fifth
  failure, the watchdog exits the process first, the key file is kept and the promise
  never settles. In both cases the login was the key login: its one \<open>logOn\<close> call
  carries the key and neither a password nor a one-time code.
\<close>

theorem key_login_failure:
  assumes "loadLoginKey st = Some loginKey" and "env_answer env = AnswerError error"
    and "exited wd = None"
  shows "(disconnectCount wd + 1 < MAX_DISCONNECTS \<longrightarrow>
            login env st wd username password sharedSecret =
              (st\<lparr>logOn_calls := logOn_calls st @ [keyLoginOptions username loginKey],
                  loginKey_file := None\<rparr>,
               wd\<lparr>disconnectCount := disconnectCount wd + 1\<rparr>,
               Rejected (toError error))
            \<and> snd (snd (loginWithPassword env st wd options)) = Rejected (toError error))
       \<and> (MAX_DISCONNECTS \<le> disconnectCount wd + 1 \<longrightarrow>
            login env st wd username password sharedSecret =
              (st\<lparr>logOn_calls := logOn_calls st @ [keyLoginOptions username loginKey]\<rparr>,
               wd\<lparr>disconnectCount := disconnectCount wd + 1, exited := Some 1\<rparr>,
               Pending))
       \<and> opt_password (keyLoginOptions username loginKey) = None
       \<and> opt_twoFactorCode (keyLoginOptions username loginKey) = None
       \<and> (opt_loginKey (keyLoginOptions username loginKey) = Some loginKey
            \<or> opt_refreshToken (keyLoginOptions username loginKey) = Some loginKey)"
proof (intro conjI impI)
  assume below: "disconnectCount wd + 1 < MAX_DISCONNECTS"
  from assms(3) have "watchdog_listener wd (ClientError error) = handleDisconnect wd" by simp
  with below have wd1: "watchdog_listener wd (ClientError error)
      = wd\<lparr>disconnectCount := disconnectCount wd + 1\<rparr>"
    by (simp add: handleDisconnect_below)
  show "login env st wd username password sharedSecret =
              (st\<lparr>logOn_calls := logOn_calls st @ [keyLoginOptions username loginKey],
                  loginKey_file := None\<rparr>,
               wd\<lparr>disconnectCount := disconnectCount wd + 1\<rparr>,
               Rejected (toError error))"
    using assms wd1
    by (simp add: login_def loginWithKey_def Let_def handleInvalidLoginKey_def del: watchdog_listener.simps)
  show "snd (snd (loginWithPassword env st wd options)) = Rejected (toError error)"
    using assms wd1
    by (simp add: loginWithPassword_def Let_def del: watchdog_listener.simps)
next
  assume reach: "MAX_DISCONNECTS \<le> disconnectCount wd + 1"
  from assms(3) have "watchdog_listener wd (ClientError error) = handleDisconnect wd" by simp
  with reach have wd1: "watchdog_listener wd (ClientError error)
      = wd\<lparr>disconnectCount := disconnectCount wd + 1, exited := Some 1\<rparr>"
    by (simp add: handleDisconnect_reach)
  show "login env st wd username password sharedSecret =
              (st\<lparr>logOn_calls := logOn_calls st @ [keyLoginOptions username loginKey]\<rparr>,
               wd\<lparr>disconnectCount := disconnectCount wd + 1, exited := Some 1\<rparr>,
               Pending)"
    using assms wd1
    by (simp add: login_def loginWithKey_def Let_def del: watchdog_listener.simps)
qed (simp_all add: keyLoginOptions_def Let_def no_options_def)

theorem key_login_failure_witness:
  "loadLoginKey \<lparr>accountName = ''bot'', token_file = None, sentry_file = None,
                 loginKey_file = Some '' k3y '', logOn_calls = []\<rparr> = Some ''k3y''
   \<and> exited new_watchdog = None \<and> disconnectCount new_watchdog + 1 < MAX_DISCONNECTS
   \<and> exited \<lparr>disconnectCount = 4, exited = None\<rparr> = None
   \<and> MAX_DISCONNECTS \<le> disconnectCount \<lparr>disconnectCount = 4, exited = None\<rparr> + 1
   \<and> login \<lparr>env_answer = AnswerError (Error ''InvalidPassword''), env_loginKeys = [],
            env_machineAuthToken = None, env_generateAuthCode = (\<lambda>s. ''00000''),
            env_stringify = (\<lambda>v. ''{}''), env_now = ''2024-01-01T00:00:00.000Z''\<rparr>
        \<lparr>accountName = ''bot'', token_file = None, sentry_file = None,
         loginKey_file = Some '' k3y '', logOn_calls = []\<rparr>
        new_watchdog ''bot'' ''hunter2'' (Some ''c2VjcmV0'')
     = (\<lparr>accountName = ''bot'', token_file = None, sentry_file = None, loginKey_file = None,
         logOn_calls = [no_options\<lparr>opt_accountName := Some ''bot'', opt_loginKey := Some ''k3y''\<rparr>]\<rparr>,
        \<lparr>disconnectCount = 1, exited = None\<rparr>,
        Rejected (Error ''InvalidPassword''))
   \<and> login \<lparr>env_answer = AnswerError (Error ''InvalidPassword''), env_loginKeys = [],
            env_machineAuthToken = None, env_generateAuthCode = (\<lambda>s. ''00000''),
            env_stringify = (\<lambda>v. ''{}''), env_now = ''2024-01-01T00:00:00.000Z''\<rparr>
        \<lparr>accountName = ''bot'', token_file = None, sentry_file = None,
         loginKey_file = Some '' k3y '', logOn_calls = []\<rparr>
        \<lparr>disconnectCount = 4, exited = None\<rparr> ''bot'' ''hunter2'' (Some ''c2VjcmV0'')
     = (\<lparr>accountName = ''bot'', token_file = None, sentry_file = None,
         loginKey_file = Some '' k3y '',
         logOn_calls = [no_options\<lparr>opt_accountName := Some ''bot'', opt_loginKey := Some ''k3y''\<rparr>]\<rparr>,
        \<lparr>disconnectCount = 5, exited = Some 1\<rparr>,
        Pending)"
proof -
  let ?st = "\<lparr>accountName = ''bot'', token_file = None, sentry_file = None,
                 loginKey_file = Some '' k3y '', logOn_calls = []\<rparr>"
  let ?env = "\<lparr>env_answer = AnswerError (Error ''InvalidPassword''), env_loginKeys = [],
            env_machineAuthToken = None, env_generateAuthCode = (\<lambda>s. ''00000''),
            env_stringify = (\<lambda>v. ''{}''), env_now = ''2024-01-01T00:00:00.000Z''\<rparr>"
  let ?last = "\<lparr>disconnectCount = 4, exited = None\<rparr>"
  have a: "loadLoginKey ?st = Some ''k3y''"
    by (simp add: loadLoginKey_def trim_def is_space_def)
  have b: "env_answer ?env = AnswerError (Error ''InvalidPassword'')" by simp
  have c: "exited new_watchdog = None" by (simp add: new_watchdog_def)
  have d: "disconnectCount new_watchdog + 1 < MAX_DISCONNECTS"
    by (simp add: new_watchdog_def MAX_DISCONNECTS_def)
  have e: "exited ?last = None" by simp
  have f: "MAX_DISCONNECTS \<le> disconnectCount ?last + 1" by (simp add: MAX_DISCONNECTS_def)
  have k: "keyLoginOptions ''bot'' ''k3y''
           = no_options\<lparr>opt_accountName := Some ''bot'', opt_loginKey := Some ''k3y''\<rparr>"
    by (simp add: keyLoginOptions_def startsWith_def)
  from key_login_failure [OF a b c, of "''bot''" "''hunter2''" "Some ''c2VjcmV0''"] d
  have first: "login ?env ?st new_watchdog ''bot'' ''hunter2'' (Some ''c2VjcmV0'')
     = (?st\<lparr>logOn_calls := logOn_calls ?st @ [keyLoginOptions ''bot'' ''k3y''],
            loginKey_file := None\<rparr>,
        new_watchdog\<lparr>disconnectCount := disconnectCount new_watchdog + 1\<rparr>,
        Rejected (toError (Error ''InvalidPassword'')))"
    by blast
  from key_login_failure [OF a b e, of "''bot''" "''hunter2''" "Some ''c2VjcmV0''"] f
  have second: "login ?env ?st ?last ''bot'' ''hunter2'' (Some ''c2VjcmV0'')
     = (?st\<lparr>logOn_calls := logOn_calls ?st @ [keyLoginOptions ''bot'' ''k3y'']\<rparr>,
        ?last\<lparr>disconnectCount := disconnectCount ?last + 1, exited := Some 1\<rparr>,
        Pending)"
    by blast
  note first' = first [unfolded new_watchdog_def k]
  note second' = second [unfolded k]
  show ?thesis
    using a c d e f by (simp add: first' second' new_watchdog_def)
qed

text \<open>
  Claim C6, as stated, fails: loading after saving the bare string \<open>abc\<close> returns a
  value that has no \<open>token\<close> field.
\<close>

theorem token_roundtrip_counterexample:
  "getprop (loadMachineAuthToken (fst (saveSessionData (\<lambda>v. ''{}'')
       \<lparr>accountName = ''bot'', token_file = None, sentry_file = None,
        loginKey_file = None, logOn_calls = []\<rparr>
       TokenPath (Value (JStr ''abc'')) ''2024-01-01T00:00:00.000Z''))) ''token''
   \<noteq> Some (JStr ''abc'')"
  by (simp add: saveSessionData_def tokenValue_of_def structuredData_def loadMachineAuthToken_def)

text \<open>
  Claim C6, amended. For a non-empty string \<open>s\<close>, saving \<open>s\<close> as the machine auth
  token writes a structured artifact whose \<open>token\<close> field is \<open>s\<close> (with the account name
  and the time of saving), and loading then returns the string \<open>s\<close> itself.
\<close>

theorem token_roundtrip:
  assumes "s \<noteq> []"
  shows "saveSessionData stringify st TokenPath (Value (JStr s)) now =
           (st\<lparr>token_file := Some (Stringified (JObj
                 [(''token'', JStr s), (''accountName'', JStr (accountName st)),
                  (''savedAt'', JStr now)]))\<rparr>, True)
       \<and> loadMachineAuthToken (fst (saveSessionData stringify st TokenPath (Value (JStr s)) now))
           = JStr s"
  using assms
  by (simp add: saveSessionData_def tokenValue_of_def structuredData_def loadMachineAuthToken_def)

theorem token_roundtrip_witness:
  "''abc'' \<noteq> []
   \<and> loadMachineAuthToken (fst (saveSessionData (\<lambda>v. ''{}'')
       \<lparr>accountName = ''bot'', token_file = None, sentry_file = None,
        loginKey_file = None, logOn_calls = []\<rparr>
       TokenPath (Value (JStr ''abc'')) ''2024-01-01T00:00:00.000Z'')) = JStr ''abc''"
proof -
  have a: "''abc'' \<noteq> []" by simp
  have b: "loadMachineAuthToken (fst (saveSessionData (\<lambda>v. ''{}'')
       \<lparr>accountName = ''bot'', token_file = None, sentry_file = None,
        loginKey_file = None, logOn_calls = []\<rparr>
       TokenPath (Value (JStr ''abc'')) ''2024-01-01T00:00:00.000Z'')) = JStr ''abc''"
    by (rule conjunct2 [OF token_roundtrip [OF a]])
  from a b show ?thesis by (rule conjI)
qed

end
